theory Spec2Isabelle
  imports Main "HOL-Library.Sublist"
begin

section \<open>Line assembly (cli/pretty-print.ts, \<open>main\<close>)\<close>

text \<open>
  JavaScript strings are modelled as \<^typ>\<open>string\<close>. The line terminator is the single
  character U+000A.
\<close>

definition newline :: char where
  "newline = CHR 0x0A"

text \<open>
  \<open>partial.split("\n")\<close>: the pieces of a string between the occurrences of the
  separator. The result is never empty: a string without separator is its only piece,
  and a string that ends with the separator has the empty string as last piece.
\<close>

fun split_newline :: "string \<Rightarrow> string list" where
  "split_newline [] = [[]]"
| "split_newline (c # cs) =
     (if c = newline then [] # split_newline cs
      else (case split_newline cs of
              [] \<Rightarrow> [[c]]
            | p # ps \<Rightarrow> (c # p) # ps))"

text \<open>
  \<open>lines.pop()\<close>: removes the last element of the array and returns it, or returns
  \<open>undefined\<close> (here \<open>None\<close>) on an empty array. The first component is the array
  after the call.
\<close>

definition pop :: "'a list \<Rightarrow> 'a list \<times> 'a option" where
  "pop xs = (if xs = [] then ([], None) else (butlast xs, Some (last xs)))"

text \<open>\<open>x ?? ""\<close>\<close>

definition nullish_or_empty :: "string option \<Rightarrow> string" where
  "nullish_or_empty x = (case x of None \<Rightarrow> [] | Some s \<Rightarrow> s)"

text \<open>
  The state of the loop of \<open>main\<close>: the variable \<open>partial\<close> and what the calls of the
  line handler have produced so far, in order. The loop body is \<open>main_step\<close>; the
  decoder (\<open>TextDecoder.decode\<close>, called once per chunk) and the line handler
  (\<open>prettyPrintLogObject\<close> in the program) are parameters.
\<close>

record 'o main_state =
  partial :: string
  handled :: "'o list"

definition main_step ::
  "('chunk \<Rightarrow> string) \<Rightarrow> (string \<Rightarrow> 'o) \<Rightarrow> 'o main_state \<Rightarrow> 'chunk \<Rightarrow> 'o main_state" where
  "main_step decode handler st chunk =
     (let text = decode chunk;
          partial1 = partial st @ text;
          lines = split_newline partial1;
          (lines', popped) = pop lines
      in \<lparr>partial = nullish_or_empty popped,
          handled = handled st @ map handler lines'\<rparr>)"

definition main_init :: "'o main_state" where
  "main_init = \<lparr>partial = [], handled = []\<rparr>"

text \<open>
  The \<open>for await\<close> loop over the chunks of the stream. When the stream ends the loop
  is left and \<open>main\<close> returns: \<open>partial\<close> is not looked at again.
\<close>

definition main_loop ::
  "('chunk \<Rightarrow> string) \<Rightarrow> (string \<Rightarrow> 'o) \<Rightarrow> 'chunk list \<Rightarrow> 'o main_state" where
  "main_loop decode handler chunks = foldl (main_step decode handler) main_init chunks"

text \<open>What \<open>main\<close> has passed to the line handler when the stream has ended.\<close>

definition main_lines :: "('chunk \<Rightarrow> string) \<Rightarrow> 'chunk list \<Rightarrow> string list" where
  "main_lines decode chunks = handled (main_loop decode (\<lambda>line. line) chunks)"

section \<open>JSON values and the record renderer (cli/pretty-print.ts)\<close>

text \<open>
  What \<open>JSON.parse\<close> returns: null, booleans, numbers, strings, arrays and objects.
  An object is the list of its own properties in property order. The type \<open>'n\<close> is
  the type of the runtime's Number values: the renderer and the logger never compute
  with a number, they only ask for its type and hand it on.
\<close>

datatype 'n json =
    JNull
  | JBool bool
  | JNum 'n
  | JStr string
  | JArr "'n json list"
  | JObj "(string \<times> 'n json) list"

text \<open>
  What the program uses from outside the repository: \<open>JSON.parse\<close> (\<open>None\<close> when it
  throws a SyntaxError), \<open>JSON.stringify(value, null, space)\<close> on a value that
  holds JSON values only, the Number value of an integer, and the eight colour
  functions of \<open>@std/fmt/colors\<close>, each a function from text to decorated text.
\<close>

record 'n runtime =
  JSON_parse :: "string \<Rightarrow> 'n json option"
  JSON_stringify :: "'n json \<Rightarrow> nat \<Rightarrow> string"
  Number_of_int :: "int \<Rightarrow> 'n"
  blue :: "string \<Rightarrow> string"
  cyan :: "string \<Rightarrow> string"
  gray :: "string \<Rightarrow> string"
  green :: "string \<Rightarrow> string"
  magenta :: "string \<Rightarrow> string"
  red :: "string \<Rightarrow> string"
  white :: "string \<Rightarrow> string"
  yellow :: "string \<Rightarrow> string"

text \<open>
  \<open>typeof x\<close>, where \<open>None\<close> is \<open>undefined\<close>, the value of a property that the
  object does not have.
\<close>

fun typeof :: "'n json option \<Rightarrow> string" where
  "typeof None = ''undefined''"
| "typeof (Some JNull) = ''object''"
| "typeof (Some (JBool b)) = ''boolean''"
| "typeof (Some (JNum n)) = ''number''"
| "typeof (Some (JStr s)) = ''string''"
| "typeof (Some (JArr xs)) = ''object''"
| "typeof (Some (JObj kvs)) = ''object''"

text \<open>
  \<open>key in obj\<close> and \<open>obj.key\<close> for the five property names the renderer asks for.
  None of them is a property of \<open>Object.prototype\<close> or \<open>Array.prototype\<close>, nor an
  index or \<open>length\<close>, so an array has none of them and an object has exactly its own.
\<close>

fun has_property :: "string \<Rightarrow> 'n json \<Rightarrow> bool" where
  "has_property k (JObj kvs) = (k \<in> set (map fst kvs))"
| "has_property k _ = False"

fun get_property :: "'n json \<Rightarrow> string \<Rightarrow> 'n json option" where
  "get_property (JObj kvs) k = map_of kvs k"
| "get_property _ k = None"

definition isLogObject :: "'n json \<Rightarrow> bool" where
  "isLogObject obj \<longleftrightarrow>
     typeof (Some obj) = ''object'' \<and>
     obj \<noteq> JNull \<and>
     has_property ''level'' obj \<and>
     has_property ''level_n'' obj \<and>
     has_property ''namespace'' obj \<and>
     has_property ''message'' obj \<and>
     has_property ''context'' obj \<and>
     typeof (get_property obj ''level'') = ''string'' \<and>
     typeof (get_property obj ''level_n'') = ''number'' \<and>
     typeof (get_property obj ''namespace'') = ''string'' \<and>
     typeof (get_property obj ''message'') = ''string'' \<and>
     (typeof (get_property obj ''context'') = ''object'' \<and>
      get_property obj ''context'' \<noteq> Some JNull)"

text \<open>
  The \<open>switch\<close> on \<open>json.level\<close>: the cases compare with \<open>===\<close>, and no case
  matching leaves \<open>message\<close> as it is.
\<close>

definition level_switch :: "'n runtime \<Rightarrow> 'n json option \<Rightarrow> string \<Rightarrow> string" where
  "level_switch rt lvl message =
     (if lvl = Some (JStr ''trace'') then message @ gray rt ''TRACE > ''
      else if lvl = Some (JStr ''debug'') then message @ blue rt ''DEBUG > ''
      else if lvl = Some (JStr ''info'') then message @ green rt '' INFO > ''
      else if lvl = Some (JStr ''warn'') then message @ yellow rt '' WARN > ''
      else if lvl = Some (JStr ''error'') then message @ red rt ''ERROR > ''
      else if lvl = Some (JStr ''fatal'') then message @ magenta rt ''FATAL > ''
      else message)"

text \<open>
  A property read where the type guard has narrowed the property to \<open>string\<close>, and
  one where it has narrowed it to a non-null object.
\<close>

fun string_property :: "'n json option \<Rightarrow> string" where
  "string_property (Some (JStr s)) = s"
| "string_property _ = []"

fun object_property :: "'n json option \<Rightarrow> 'n json" where
  "object_property (Some j) = j"
| "object_property None = JNull"

datatype error = SyntaxError | InvalidLogObject

text \<open>
  The body of the \<open>try\<close> statement of \<open>prettyPrintLogObject\<close>: \<open>Inl\<close> is an
  exception thrown in it, \<open>Inr\<close> the argument of its call of \<open>console.log\<close>.
\<close>

definition try_block :: "'n runtime \<Rightarrow> string \<Rightarrow> error + string" where
  "try_block rt line =
     (case JSON_parse rt line of
        None \<Rightarrow> Inl SyntaxError
      | Some json \<Rightarrow>
          if isLogObject json then
            (let message = [];
                 message = level_switch rt (get_property json ''level'') message;
                 message = message @ ''['' @
                   cyan rt (string_property (get_property json ''namespace'')) @ ''] '' @
                   white rt (string_property (get_property json ''message''));
                 message = message @ [newline];
                 message = message @
                   gray rt (JSON_stringify rt (object_property (get_property json ''context'')) 2)
             in Inr message)
          else Inl InvalidLogObject)"

text \<open>
  \<open>prettyPrintLogObject\<close>: what the one call of \<open>console.log\<close> prints, from the
  \<open>try\<close> body or from the \<open>catch\<close> clause.
\<close>

definition prettyPrintLogObject :: "'n runtime \<Rightarrow> string \<Rightarrow> string" where
  "prettyPrintLogObject rt line =
     (case try_block rt line of
        Inr message \<Rightarrow> message
      | Inl e \<Rightarrow> gray rt line)"

text \<open>\<open>main\<close>: the console output for a stream of chunks.\<close>

definition main :: "'n runtime \<Rightarrow> ('chunk \<Rightarrow> string) \<Rightarrow> 'chunk list \<Rightarrow> string list" where
  "main rt decode chunks = handled (main_loop decode (prettyPrintLogObject rt) chunks)"

section \<open>The JSON text functions of the runtime\<close>

text \<open>
  \<open>JSON.stringify\<close> and \<open>JSON.parse\<close> are built into the JavaScript runtime. This
  section gives one runtime to compute with, whose Number values are the integers:
  the two functions on \<^typ>\<open>int json\<close>, following ECMAScript's
  \<open>SerializeJSONProperty\<close> and the JSON grammar. Characters are the 8-bit
  \<^typ>\<open>char\<close> and number literals are integer literals (a literal with a fraction
  or an exponent, and a \<open>\u\<close> escape above \<open>00FF\<close>, are outside this runtime:
  \<open>None\<close>). The properties of the renderer and of the logger below are stated for
  every runtime; this one serves them as an instance.
\<close>

definition dquote :: char where
  "dquote = CHR 0x22"

definition backslash :: char where
  "backslash = CHR 0x5C"

definition digit_char :: "nat \<Rightarrow> char" where
  "digit_char n = char_of (48 + n)"

function string_of_nat :: "nat \<Rightarrow> string" where
  "string_of_nat n =
     (if n < 10 then [digit_char n]
      else string_of_nat (n div 10) @ [digit_char (n mod 10)])"
  by pat_completeness auto
termination
  by (relation "measure (\<lambda>n. n)") auto

declare string_of_nat.simps [simp del]

definition string_of_int :: "int \<Rightarrow> string" where
  "string_of_int i = (if i < 0 then CHR ''-'' # string_of_nat (nat (- i)) else string_of_nat (nat i))"

definition hex_digit :: "nat \<Rightarrow> char" where
  "hex_digit n = (if n < 10 then char_of (48 + n) else char_of (87 + n))"

text \<open>\<open>QuoteJSONString\<close>, one character at a time.\<close>

definition quote_char :: "char \<Rightarrow> string" where
  "quote_char c =
     (if c = CHR 0x08 then [backslash, CHR ''b'']
      else if c = CHR 0x09 then [backslash, CHR ''t'']
      else if c = CHR 0x0A then [backslash, CHR ''n'']
      else if c = CHR 0x0C then [backslash, CHR ''f'']
      else if c = CHR 0x0D then [backslash, CHR ''r'']
      else if c = dquote then [backslash, dquote]
      else if c = backslash then [backslash, backslash]
      else if (of_char c :: nat) < 32 then
        [backslash, CHR ''u'', CHR ''0'', CHR ''0'',
         hex_digit (of_char c div 16), hex_digit (of_char c mod 16)]
      else [c])"

definition quote :: "string \<Rightarrow> string" where
  "quote s = dquote # concat (map quote_char s) @ [dquote]"

fun join :: "string \<Rightarrow> string list \<Rightarrow> string" where
  "join sep [] = []"
| "join sep [x] = x"
| "join sep (x # y # ys) = x @ sep @ join sep (y # ys)"

text \<open>
  \<open>SerializeJSONProperty\<close> without replacer function: \<open>gap\<close> is the indentation
  unit and \<open>indent\<close> the current indentation.
\<close>

fun serialize :: "string \<Rightarrow> string \<Rightarrow> int json \<Rightarrow> string" where
  "serialize gap indent JNull = ''null''"
| "serialize gap indent (JBool b) = (if b then ''true'' else ''false'')"
| "serialize gap indent (JNum n) = string_of_int n"
| "serialize gap indent (JStr s) = quote s"
| "serialize gap indent (JArr xs) =
     (let stepback = indent;
          indent = indent @ gap;
          parts = map (serialize gap indent) xs
      in if parts = [] then ''[]''
         else if gap = [] then ''['' @ join '','' parts @ '']''
         else ''['' @ [newline] @ indent @ join ('','' @ [newline] @ indent) parts @
              [newline] @ stepback @ '']'')"
| "serialize gap indent (JObj kvs) =
     (let stepback = indent;
          indent = indent @ gap;
          parts = map (\<lambda>kv. quote (fst kv) @ '':'' @ (if gap = [] then [] else '' '') @
                              serialize gap indent (snd kv)) kvs
      in if parts = [] then ''{}''
         else if gap = [] then ''{'' @ join '','' parts @ ''}''
         else ''{'' @ [newline] @ indent @ join ('','' @ [newline] @ indent) parts @
              [newline] @ stepback @ ''}'')"

text \<open>\<open>JSON.stringify(value, null, space)\<close> for a number \<open>space\<close>.\<close>

definition JSON_stringify_text :: "int json \<Rightarrow> nat \<Rightarrow> string" where
  "JSON_stringify_text v space = serialize (replicate (min space 10) CHR '' '') [] v"

text \<open>The JSON grammar: white space, numbers, strings, values.\<close>

definition is_ws :: "char \<Rightarrow> bool" where
  "is_ws c \<longleftrightarrow> c = CHR 0x20 \<or> c = CHR 0x09 \<or> c = CHR 0x0A \<or> c = CHR 0x0D"

definition skip_ws :: "string \<Rightarrow> string" where
  "skip_ws s = dropWhile is_ws s"

definition is_digit :: "char \<Rightarrow> bool" where
  "is_digit c \<longleftrightarrow> 48 \<le> (of_char c :: nat) \<and> (of_char c :: nat) \<le> 57"

definition digit_value :: "char \<Rightarrow> nat" where
  "digit_value c = of_char c - 48"

definition nat_of_digits :: "string \<Rightarrow> nat" where
  "nat_of_digits ds = foldl (\<lambda>a c. 10 * a + digit_value c) 0 ds"

definition parse_number :: "string \<Rightarrow> (int \<times> string) option" where
  "parse_number s =
     (let negative = (s \<noteq> [] \<and> hd s = CHR ''-'');
          s1 = (if negative then tl s else s);
          ds = takeWhile is_digit s1;
          rest = dropWhile is_digit s1
      in if ds = [] \<or> (hd ds = CHR ''0'' \<and> tl ds \<noteq> []) then None
         else Some (if negative then - int (nat_of_digits ds) else int (nat_of_digits ds), rest))"

definition hex_value :: "char \<Rightarrow> nat option" where
  "hex_value c =
     (let n = (of_char c :: nat)
      in if 48 \<le> n \<and> n \<le> 57 then Some (n - 48)
         else if 97 \<le> n \<and> n \<le> 102 then Some (n - 87)
         else if 65 \<le> n \<and> n \<le> 70 then Some (n - 55)
         else None)"

definition unescape :: "char \<Rightarrow> char option" where
  "unescape e =
     (if e = dquote then Some dquote
      else if e = backslash then Some backslash
      else if e = CHR ''/'' then Some CHR ''/''
      else if e = CHR ''b'' then Some (CHR 0x08)
      else if e = CHR ''f'' then Some (CHR 0x0C)
      else if e = CHR ''n'' then Some (CHR 0x0A)
      else if e = CHR ''r'' then Some (CHR 0x0D)
      else if e = CHR ''t'' then Some (CHR 0x09)
      else None)"

definition cons_char :: "char \<Rightarrow> (string \<times> string) option \<Rightarrow> (string \<times> string) option" where
  "cons_char c res = (case res of None \<Rightarrow> None | Some (s, rest) \<Rightarrow> Some (c # s, rest))"

text \<open>
  The characters of a string literal after its opening quote: the string it denotes
  and the text after its closing quote.
\<close>

fun parse_string_body :: "string \<Rightarrow> (string \<times> string) option" where
  "parse_string_body [] = None"
| "parse_string_body (c # r) =
     (if c = dquote then Some ([], r)
      else if c = backslash then
        (case r of
           [] \<Rightarrow> None
         | e # r1 \<Rightarrow>
             if e = CHR ''u'' then
               (case r1 of
                  h1 # h2 # h3 # h4 # r2 \<Rightarrow>
                    (case (hex_value h1, hex_value h2, hex_value h3, hex_value h4) of
                       (Some a, Some b, Some c', Some d) \<Rightarrow>
                         (let n = ((a * 16 + b) * 16 + c') * 16 + d
                          in if n < 256 then cons_char (char_of n) (parse_string_body r2)
                             else None)
                     | _ \<Rightarrow> None)
                | _ \<Rightarrow> None)
             else (case unescape e of
                     None \<Rightarrow> None
                   | Some ch \<Rightarrow> cons_char ch (parse_string_body r1)))
      else if (of_char c :: nat) < 32 then None
      else cons_char c (parse_string_body r))"

text \<open>
  \<open>JSON.parse\<close> keeps one property per name: a later member with the name of an
  earlier one replaces its value, in the earlier one's place.
\<close>

fun define_property ::
  "(string \<times> int json) list \<Rightarrow> string \<Rightarrow> int json \<Rightarrow> (string \<times> int json) list" where
  "define_property [] k v = [(k, v)]"
| "define_property (p # ps) k v =
     (if fst p = k then (k, v) # ps else p # define_property ps k v)"

definition object_of_members :: "(string \<times> int json) list \<Rightarrow> int json" where
  "object_of_members kvs = JObj (foldl (\<lambda>acc kv. define_property acc (fst kv) (snd kv)) [] kvs)"

text \<open>
  Recursive descent on the text, which starts at a token. The first argument bounds
  the number of nested calls; the length of the text is always enough.
\<close>

fun parse_value :: "nat \<Rightarrow> string \<Rightarrow> (int json \<times> string) option"
  and parse_elements :: "nat \<Rightarrow> string \<Rightarrow> (int json list \<times> string) option"
  and parse_members :: "nat \<Rightarrow> string \<Rightarrow> ((string \<times> int json) list \<times> string) option"
where
  "parse_value 0 s = None"
| "parse_value (Suc n) s =
     (case s of
        [] \<Rightarrow> None
      | c # r \<Rightarrow>
          if c = CHR ''{'' then
            (case skip_ws r of
               [] \<Rightarrow> None
             | c1 # r1 \<Rightarrow>
                 if c1 = CHR ''}'' then Some (JObj [], r1)
                 else (case parse_members n (c1 # r1) of
                         None \<Rightarrow> None
                       | Some (kvs, rest) \<Rightarrow> Some (object_of_members kvs, rest)))
          else if c = CHR ''['' then
            (case skip_ws r of
               [] \<Rightarrow> None
             | c1 # r1 \<Rightarrow>
                 if c1 = CHR '']'' then Some (JArr [], r1)
                 else (case parse_elements n (c1 # r1) of
                         None \<Rightarrow> None
                       | Some (vs, rest) \<Rightarrow> Some (JArr vs, rest)))
          else if c = dquote then
            (case parse_string_body r of
               None \<Rightarrow> None
             | Some (str, rest) \<Rightarrow> Some (JStr str, rest))
          else if c = CHR ''-'' \<or> is_digit c then
            (case parse_number s of
               None \<Rightarrow> None
             | Some (i, rest) \<Rightarrow> Some (JNum i, rest))
          else if take 4 s = ''true'' then Some (JBool True, drop 4 s)
          else if take 5 s = ''false'' then Some (JBool False, drop 5 s)
          else if take 4 s = ''null'' then Some (JNull, drop 4 s)
          else None)"
| "parse_elements 0 s = None"
| "parse_elements (Suc n) s =
     (case parse_value n s of
        None \<Rightarrow> None
      | Some (v, rest) \<Rightarrow>
          (case skip_ws rest of
             [] \<Rightarrow> None
           | c # r \<Rightarrow>
               if c = CHR '']'' then Some ([v], r)
               else if c = CHR '','' then
                 (case parse_elements n (skip_ws r) of
                    None \<Rightarrow> None
                  | Some (vs, rest') \<Rightarrow> Some (v # vs, rest'))
               else None))"
| "parse_members 0 s = None"
| "parse_members (Suc n) s =
     (case s of
        [] \<Rightarrow> None
      | q # r \<Rightarrow>
          if q \<noteq> dquote then None
          else
            (case parse_string_body r of
               None \<Rightarrow> None
             | Some (k, rest) \<Rightarrow>
                 (case skip_ws rest of
                    [] \<Rightarrow> None
                  | c # r1 \<Rightarrow>
                      if c \<noteq> CHR '':'' then None
                      else
                        (case parse_value n (skip_ws r1) of
                           None \<Rightarrow> None
                         | Some (v, rest1) \<Rightarrow>
                             (case skip_ws rest1 of
                                [] \<Rightarrow> None
                              | c2 # r2 \<Rightarrow>
                                  if c2 = CHR ''}'' then Some ([(k, v)], r2)
                                  else if c2 = CHR '','' then
                                    (case parse_members n (skip_ws r2) of
                                       None \<Rightarrow> None
                                     | Some (kvs, rest2) \<Rightarrow> Some ((k, v) # kvs, rest2))
                                  else None)))))"

definition JSON_parse_text :: "string \<Rightarrow> int json option" where
  "JSON_parse_text s =
     (case parse_value (length s) (skip_ws s) of
        None \<Rightarrow> None
      | Some (v, rest) \<Rightarrow> if skip_ws rest = [] then Some v else None)"

text \<open>
  The runtime with colours switched off (\<open>NO_COLOR\<close>, or \<open>setColorEnabled(false)\<close>):
  every colour function returns its argument.
\<close>

definition plain_runtime :: "int runtime" where
  "plain_runtime =
     \<lparr>JSON_parse = JSON_parse_text, JSON_stringify = JSON_stringify_text,
      Number_of_int = (\<lambda>i. i),
      blue = (\<lambda>s. s), cyan = (\<lambda>s. s), gray = (\<lambda>s. s), green = (\<lambda>s. s),
      magenta = (\<lambda>s. s), red = (\<lambda>s. s), white = (\<lambda>s. s), yellow = (\<lambda>s. s)\<rparr>"

section \<open>The logger (the module of \<open>LOG_LEVELS\<close> and class \<open>Logger\<close>)\<close>

text \<open>
  The logger module: the array \<open>LOG_LEVELS\<close>, the functions \<open>hastoString\<close> and
  \<open>stringifyFunction\<close>, and the class \<open>Logger\<close>. In the source tree it follows the
  release script in \<open>scripts/generate-release.ts\<close>.
\<close>

definition LOG_LEVELS :: "string list" where
  "LOG_LEVELS = [''trace'', ''debug'', ''info'', ''warn'', ''error'', ''fatal'']"

text \<open>
  \<open>Array.prototype.indexOf\<close>: the index of the first element equal to the argument,
  or -1 when there is none.
\<close>

fun indexOf_from :: "nat \<Rightarrow> 'a list \<Rightarrow> 'a \<Rightarrow> int" where
  "indexOf_from i [] x = - 1"
| "indexOf_from i (y # ys) x = (if y = x then int i else indexOf_from (Suc i) ys x)"

definition indexOf :: "'a list \<Rightarrow> 'a \<Rightarrow> int" where
  "indexOf xs x = indexOf_from 0 xs x"

text \<open>
  \<open>Array.prototype.filter\<close> with a callback that looks at the element and its index.
\<close>

definition filter_indexed :: "('a \<Rightarrow> nat \<Rightarrow> bool) \<Rightarrow> 'a list \<Rightarrow> 'a list" where
  "filter_indexed p xs = map snd (filter (\<lambda>ix. p (snd ix) (fst ix)) (enumerate 0 xs))"

text \<open>
  A call returns a value or throws. The exceptions are the runtime's \<open>TypeError\<close> (a
  property read on \<open>undefined\<close>, a BigInt that reaches \<open>JSON.stringify\<close>) and
  \<open>RangeError\<close> (\<open>toISOString\<close> of an invalid date), and whatever a function of the
  caller's throws.
\<close>

datatype exception = TypeError | RangeError | Thrown string

datatype 'a outcome = Returns 'a | Throws exception

text \<open>The eleven classes of typed arrays that the value serializer tests for.\<close>

datatype typed_array =
    Int8Array | Uint8Array | Uint8ClampedArray
  | Int16Array | Uint16Array
  | Int32Array | Uint32Array
  | Float32Array | Float64Array
  | BigInt64Array | BigUint64Array

text \<open>
  The values that a context can hold (\<open>unknown\<close> in the source), as far as the value
  serializer and \<open>JSON.stringify\<close> tell them apart: \<open>undefined\<close>, the values native to
  JSON, and the instances of the classes that the serializer tests with \<open>instanceof\<close>
  or \<open>typeof\<close>. An error has its \<open>message\<close>, its \<open>name\<close> and, if any, its \<open>stack\<close>; a typed array its
  kind and its elements; a date its \<open>toISOString()\<close> text, or none when it is invalid;
  a regular expression its \<open>toString()\<close> text; a map its entries, each with the
  property key of its key, and a set its elements, in iteration order; a function its
  \<open>name\<close> and its \<open>toString()\<close> text; a symbol its description. An object here has
  no \<open>toJSON\<close> method of its own and no cycle.
\<close>

datatype 'n jsvalue =
    VUndefined
  | VNull
  | VBool bool
  | VNum 'n
  | VStr string
  | VArr "'n jsvalue list"
  | VObj "(string \<times> 'n jsvalue) list"
  | VError string string "string option"
  | VTypedArray typed_array "'n jsvalue list"
  | VArrayBuffer
  | VSharedArrayBuffer
  | VDate "string option"
  | VRegExp string
  | VMap "(string \<times> 'n jsvalue) list"
  | VSet "'n jsvalue list"
  | VWeakMap
  | VWeakSet
  | VPromise
  | VDataView
  | VFunction string string
  | VBigInt int
  | VSymbol string

text \<open>\<open>typeof v\<close>\<close>

fun typeof_value :: "'n jsvalue \<Rightarrow> string" where
  "typeof_value VUndefined = ''undefined''"
| "typeof_value (VBool b) = ''boolean''"
| "typeof_value (VNum n) = ''number''"
| "typeof_value (VStr s) = ''string''"
| "typeof_value (VFunction name text) = ''function''"
| "typeof_value (VBigInt i) = ''bigint''"
| "typeof_value (VSymbol d) = ''symbol''"
| "typeof_value _ = ''object''"

text \<open>
  \<open>hastoString\<close>: the read of \<open>value.toString\<close> throws on \<open>undefined\<close> and \<open>null\<close>; every
  other value of the model inherits the method.
\<close>

fun hastoString :: "'n jsvalue \<Rightarrow> bool outcome" where
  "hastoString VUndefined = Throws TypeError"
| "hastoString VNull = Throws TypeError"
| "hastoString _ = Returns True"

text \<open>\<open>str.split(sep)\<close> for a separator of one character.\<close>

fun split_on :: "char \<Rightarrow> string \<Rightarrow> string list" where
  "split_on sep [] = [[]]"
| "split_on sep (c # cs) =
     (if c = sep then [] # split_on sep cs
      else (case split_on sep cs of
              [] \<Rightarrow> [[c]]
            | p # ps \<Rightarrow> (c # p) # ps))"

text \<open>\<open>xs[i]\<close>, which is \<open>undefined\<close> (here \<open>None\<close>) past the end of the array.\<close>

definition element :: "'a list \<Rightarrow> nat \<Rightarrow> 'a option" where
  "element xs i = (if i < length xs then Some (xs ! i) else None)"

text \<open>
  The white space of a regular expression's \<open>\s\<close>, among the characters of the model.
\<close>

definition is_regex_space :: "char \<Rightarrow> bool" where
  "is_regex_space c \<longleftrightarrow> (of_char c :: nat) \<in> {9, 10, 11, 12, 13, 32, 160}"

text \<open>
  \<open>fnString.match(/function\s*\(([^)]*)\)/)\<close>: the first capture group of the leftmost
  match, or \<open>None\<close> when there is none. A match at the start of a text is the word
  \<open>function\<close>, white space, an opening parenthesis and the characters up to the next
  closing parenthesis, which must exist.
\<close>

definition match_function_here :: "string \<Rightarrow> string option" where
  "match_function_here s =
     (if take 8 s = ''function'' then
        (case dropWhile is_regex_space (drop 8 s) of
           [] \<Rightarrow> None
         | c # r \<Rightarrow>
             if c = CHR ''('' \<and> CHR '')'' \<in> set r
             then Some (takeWhile (\<lambda>c. c \<noteq> CHR '')'') r)
             else None)
      else None)"

fun match_function :: "string \<Rightarrow> string option" where
  "match_function [] = None"
| "match_function (c # cs) =
     (case match_function_here (c # cs) of
        Some g \<Rightarrow> Some g
      | None \<Rightarrow> match_function cs)"

text \<open>\<open>fnString.match(/\(([^)]*)\)\s*=>/)\<close>, in the same way.\<close>

definition match_arrow_here :: "string \<Rightarrow> string option" where
  "match_arrow_here s =
     (case s of
        [] \<Rightarrow> None
      | c # r \<Rightarrow>
          if c = CHR ''('' \<and> CHR '')'' \<in> set r \<and>
             take 2 (dropWhile is_regex_space (tl (dropWhile (\<lambda>c. c \<noteq> CHR '')'') r))) = ''=>''
          then Some (takeWhile (\<lambda>c. c \<noteq> CHR '')'') r)
          else None)"

fun match_arrow :: "string \<Rightarrow> string option" where
  "match_arrow [] = None"
| "match_arrow (c # cs) =
     (case match_arrow_here (c # cs) of
        Some g \<Rightarrow> Some g
      | None \<Rightarrow> match_arrow cs)"

text \<open>
  \<open>stringifyFunction\<close>, of the function's \<open>name\<close> and \<open>toString()\<close> text. For a named
  function, \<open>fnString.split("(")[1]\<close> is \<open>undefined\<close> when the text has no opening
  parenthesis, and the call of \<open>split\<close> on it throws a TypeError.
\<close>

definition stringifyFunction :: "string \<Rightarrow> string \<Rightarrow> string outcome" where
  "stringifyFunction name fnString =
     (if name \<noteq> [] then
        (case element (split_on CHR ''('' fnString) 1 of
           None \<Rightarrow> Throws TypeError
         | Some after \<Rightarrow>
             (case element (split_on CHR '')'' after) 0 of
                None \<Rightarrow> Throws TypeError
              | Some params \<Rightarrow> Returns (name @ ''('' @ params @ '')'')))
      else
        (case match_function fnString of
           Some params \<Rightarrow> Returns (''function('' @ params @ '')'')
         | None \<Rightarrow>
             (case match_arrow fnString of
                Some params \<Rightarrow> Returns (''('' @ params @ '') =>'')
              | None \<Rightarrow>
                  Returns (if length fnString > 50 then take 47 fnString @ ''...''
                           else fnString))))"

text \<open>\<open>Object.fromEntries\<close>: a later entry with the key of an earlier one replaces its value.\<close>

fun set_entry :: "(string \<times> 'v) list \<Rightarrow> string \<Rightarrow> 'v \<Rightarrow> (string \<times> 'v) list" where
  "set_entry [] k v = [(k, v)]"
| "set_entry (p # ps) k v = (if fst p = k then (k, v) # ps else p # set_entry ps k v)"

definition fromEntries :: "(string \<times> 'v) list \<Rightarrow> (string \<times> 'v) list" where
  "fromEntries entries = foldl (\<lambda>acc kv. set_entry acc (fst kv) (snd kv)) [] entries"

text \<open>\<open>v.toString()\<close> of a BigInt and of a symbol.\<close>

fun toString_primitive :: "'n jsvalue \<Rightarrow> string" where
  "toString_primitive (VBigInt i) = string_of_int i"
| "toString_primitive (VSymbol d) = ''Symbol('' @ d @ '')''"
| "toString_primitive _ = []"

text \<open>
  \<open>Logger.defaultJsonValueSerializer\<close>: one equation for each \<open>if\<close> of the source, in
  its order (two for the last \<open>if\<close>, one for each of its two types), and the last for
  its \<open>return v\<close>.
\<close>

fun defaultJsonValueSerializer :: "string \<Rightarrow> 'n jsvalue \<Rightarrow> 'n jsvalue outcome" where
  "defaultJsonValueSerializer k (VError message name stack) =
     Returns (VObj [(''message'', VStr message), (''name'', VStr name),
                    (''stack'', (case stack of None \<Rightarrow> VUndefined | Some s \<Rightarrow> VStr s))])"
| "defaultJsonValueSerializer k (VTypedArray Int8Array elems) =
     Returns (VStr (''Int8Array('' @ string_of_nat (length elems) @ '')''))"
| "defaultJsonValueSerializer k (VTypedArray Uint8Array elems) =
     Returns (VStr (''Uint8Array('' @ string_of_nat (length elems) @ '')''))"
| "defaultJsonValueSerializer k (VTypedArray Uint8ClampedArray elems) =
     Returns (VStr (''Uint8ClampedArray('' @ string_of_nat (length elems) @ '')''))"
| "defaultJsonValueSerializer k (VTypedArray Int16Array elems) =
     Returns (VStr (''Int16Array('' @ string_of_nat (length elems) @ '')''))"
| "defaultJsonValueSerializer k (VTypedArray Uint16Array elems) =
     Returns (VStr (''Uint16Array('' @ string_of_nat (length elems) @ '')''))"
| "defaultJsonValueSerializer k (VTypedArray Int32Array elems) =
     Returns (VStr (''Int32Array('' @ string_of_nat (length elems) @ '')''))"
| "defaultJsonValueSerializer k (VTypedArray Uint32Array elems) =
     Returns (VStr (''Uint32Array('' @ string_of_nat (length elems) @ '')''))"
| "defaultJsonValueSerializer k (VTypedArray Float32Array elems) =
     Returns (VStr (''Float32Array('' @ string_of_nat (length elems) @ '')''))"
| "defaultJsonValueSerializer k (VTypedArray Float64Array elems) =
     Returns (VStr (''Float64Array('' @ string_of_nat (length elems) @ '')''))"
| "defaultJsonValueSerializer k (VTypedArray BigInt64Array elems) =
     Returns (VStr (''BigInt64Array('' @ string_of_nat (length elems) @ '')''))"
| "defaultJsonValueSerializer k (VTypedArray BigUint64Array elems) =
     Returns (VStr (''BigUint64Array('' @ string_of_nat (length elems) @ '')''))"
| "defaultJsonValueSerializer k VArrayBuffer = Returns (VStr ''ArrayBuffer'')"
| "defaultJsonValueSerializer k VSharedArrayBuffer = Returns (VStr ''ArrayBuffer'')"
| "defaultJsonValueSerializer k (VDate d) =
     (case d of None \<Rightarrow> Throws RangeError | Some text \<Rightarrow> Returns (VStr text))"
| "defaultJsonValueSerializer k (VRegExp text) = Returns (VStr text)"
| "defaultJsonValueSerializer k (VMap entries) = Returns (VObj (fromEntries entries))"
| "defaultJsonValueSerializer k (VSet elems) = Returns (VArr elems)"
| "defaultJsonValueSerializer k VWeakMap = Returns (VStr ''WeakMap'')"
| "defaultJsonValueSerializer k VWeakSet = Returns (VStr ''WeakSet'')"
| "defaultJsonValueSerializer k VPromise = Returns (VStr ''Promise'')"
| "defaultJsonValueSerializer k VDataView = Returns (VStr ''DataView'')"
| "defaultJsonValueSerializer k (VFunction name fnString) =
     (case stringifyFunction name fnString of
        Throws e \<Rightarrow> Throws e
      | Returns s \<Rightarrow> Returns (VStr s))"
| "defaultJsonValueSerializer k (VBigInt i) =
     (case hastoString (VBigInt i :: 'n jsvalue) of
        Throws e \<Rightarrow> Throws e
      | Returns has \<Rightarrow>
          if has then Returns (VStr (toString_primitive (VBigInt i :: 'n jsvalue)))
          else Returns (VStr (typeof_value (VBigInt i :: 'n jsvalue) @ ''(cannot stringify)'')))"
| "defaultJsonValueSerializer k (VSymbol d) =
     (case hastoString (VSymbol d :: 'n jsvalue) of
        Throws e \<Rightarrow> Throws e
      | Returns has \<Rightarrow>
          if has then Returns (VStr (toString_primitive (VSymbol d :: 'n jsvalue)))
          else Returns (VStr (typeof_value (VSymbol d :: 'n jsvalue) @ ''(cannot stringify)'')))"
| "defaultJsonValueSerializer k v = Returns v"

type_synonym 'n serializer = "string \<Rightarrow> 'n jsvalue \<Rightarrow> 'n jsvalue outcome"

text \<open>
  \<open>JSON.stringify(value, replacer)\<close> (ECMAScript, SerializeJSONProperty), which
  \<open>defaultFormatLog\<close> calls.

  A property's value first goes through its \<open>toJSON\<close> method when it has one (of the
  values here, a date: the ISO text, or \<open>null\<close> for an invalid date), and then
  through the replacer. What the replacer returns is then serialized: \<open>undefined\<close>,
  a function and a symbol have no JSON text; a BigInt throws a TypeError; an array
  is serialized element by element and any other object property by property, over
  its own enumerable string-keyed properties (the elements of a typed array, under
  their indices; none for the other built-in objects).
\<close>

fun toJSON :: "'n jsvalue \<Rightarrow> 'n jsvalue" where
  "toJSON (VDate None) = VNull"
| "toJSON (VDate (Some text)) = VStr text"
| "toJSON v = v"

definition index_keys :: "'a list \<Rightarrow> (string \<times> 'a) list" where
  "index_keys xs = map (\<lambda>ix. (string_of_nat (fst ix), snd ix)) (enumerate 0 xs)"

datatype 'n kind =
    Omitted
  | Leaf "'n json"
  | Unserializable
  | Elements "'n jsvalue list"
  | Properties "(string \<times> 'n jsvalue) list"

fun kind_of :: "'n jsvalue \<Rightarrow> 'n kind" where
  "kind_of VUndefined = Omitted"
| "kind_of (VFunction name fnString) = Omitted"
| "kind_of (VSymbol d) = Omitted"
| "kind_of VNull = Leaf JNull"
| "kind_of (VBool b) = Leaf (JBool b)"
| "kind_of (VNum n) = Leaf (JNum n)"
| "kind_of (VStr s) = Leaf (JStr s)"
| "kind_of (VBigInt i) = Unserializable"
| "kind_of (VArr xs) = Elements xs"
| "kind_of (VObj kvs) = Properties kvs"
| "kind_of (VTypedArray t elems) = Properties (index_keys elems)"
| "kind_of _ = Properties []"

text \<open>
  In an array, an element without JSON text is written as \<open>null\<close>; in an object, a
  property without JSON text is left out.
\<close>

definition array_of :: "(string \<times> 'n json option) list \<Rightarrow> 'n json" where
  "array_of ps = JArr (map (\<lambda>p. case snd p of None \<Rightarrow> JNull | Some j \<Rightarrow> j) ps)"

definition object_of :: "(string \<times> 'n json option) list \<Rightarrow> 'n json" where
  "object_of ps =
     JObj (concat (map (\<lambda>p. case snd p of None \<Rightarrow> [] | Some j \<Rightarrow> [(fst p, j)]) ps))"

text \<open>
  The walk over the properties of one holder, in order: for each the JSON value, or
  \<open>None\<close> when it has no JSON text. The first exception ends the walk. A replacer can
  return ever new objects, and the walk then does not end: its value is \<open>None\<close>.
\<close>

partial_function (option) serializeJSONProperties ::
  "'n serializer \<Rightarrow> (string \<times> 'n jsvalue) list \<Rightarrow>
   (string \<times> 'n json option) list outcome option" where
  "serializeJSONProperties replacer items =
     (case items of
        [] \<Rightarrow> Some (Returns [])
      | item # rest \<Rightarrow>
          (case replacer (fst item) (toJSON (snd item)) of
             Throws e \<Rightarrow> Some (Throws e)
           | Returns v \<Rightarrow>
               Option.bind
                 (case kind_of v of
                    Omitted \<Rightarrow> Some (Returns None)
                  | Leaf j \<Rightarrow> Some (Returns (Some j))
                  | Unserializable \<Rightarrow> Some (Throws TypeError)
                  | Elements xs \<Rightarrow>
                      Option.bind (serializeJSONProperties replacer (index_keys xs))
                        (\<lambda>r. case r of
                                Throws e \<Rightarrow> Some (Throws e)
                              | Returns ps \<Rightarrow> Some (Returns (Some (array_of ps))))
                  | Properties kvs \<Rightarrow>
                      Option.bind (serializeJSONProperties replacer kvs)
                        (\<lambda>r. case r of
                                Throws e \<Rightarrow> Some (Throws e)
                              | Returns ps \<Rightarrow> Some (Returns (Some (object_of ps)))))
                 (\<lambda>r. case r of
                         Throws e \<Rightarrow> Some (Throws e)
                       | Returns j \<Rightarrow>
                           Option.bind (serializeJSONProperties replacer rest)
                             (\<lambda>r'. case r' of
                                      Throws e \<Rightarrow> Some (Throws e)
                                    | Returns ps \<Rightarrow> Some (Returns ((fst item, j) # ps))))))"

declare serializeJSONProperties.simps [code]

text \<open>
  \<open>JSON.stringify(value, replacer)\<close>: the value is serialized as the property with
  the empty name of a wrapper object, and the text is written without indentation.
  The result is \<open>undefined\<close> (here \<open>None\<close>) when the value has no JSON text.
\<close>

definition JSON_stringify_replacer ::
  "'n runtime \<Rightarrow> 'n jsvalue \<Rightarrow> 'n serializer \<Rightarrow> string option outcome option" where
  "JSON_stringify_replacer rt v replacer =
     (case serializeJSONProperties replacer [([], v)] of
        None \<Rightarrow> None
      | Some (Throws e) \<Rightarrow> Some (Throws e)
      | Some (Returns ps) \<Rightarrow>
          (case ps of
             [p] \<Rightarrow>
               (case snd p of
                  None \<Rightarrow> Some (Returns None)
                | Some j \<Rightarrow> Some (Returns (Some (JSON_stringify rt j 0))))
           | _ \<Rightarrow> Some (Returns None)))"

text \<open>
  \<open>LogObject\<close>, and the object that \<open>#handleLog\<close> builds for it: the five properties
  of the object literal in its order, and \<open>timestamp\<close>, assigned afterwards and so
  the last property, when there is one.
\<close>

record 'n LogObject =
  level :: string
  level_n :: int
  timestamp :: "string option"
  namespace :: string
  message :: string
  context' :: "(string \<times> 'n jsvalue) list"

definition LogObject_value :: "'n runtime \<Rightarrow> 'n LogObject \<Rightarrow> 'n jsvalue" where
  "LogObject_value rt l =
     VObj ([(''level'', VStr (level l)),
            (''level_n'', VNum (Number_of_int rt (level_n l))),
            (''namespace'', VStr (namespace l)),
            (''message'', VStr (message l)),
            (''context'', VObj (context' l))] @
           (case timestamp l of None \<Rightarrow> [] | Some t \<Rightarrow> [(''timestamp'', VStr t)]))"

type_synonym 'n formatter =
  "'n LogObject \<Rightarrow> 'n serializer \<Rightarrow> string option outcome option"

text \<open>\<open>Logger.defaultFormatLog\<close>\<close>

definition defaultFormatLog :: "'n runtime \<Rightarrow> 'n formatter" where
  "defaultFormatLog rt l jsonValueSerializer =
     JSON_stringify_replacer rt (LogObject_value rt l) jsonValueSerializer"

text \<open>
  \<open>LoggerConfiguration\<close>: each property may be absent. A formatter of the caller's
  returns a text, throws, or does not return.
\<close>

record 'n LoggerConfiguration =
  minLogLevel :: "string option"
  includeTimestamp :: "bool option"
  formatLog :: "'n formatter option"
  jsonValueSerializer :: "'n serializer option"

text \<open>The configuration \<open>{}\<close>, the default of the constructor's parameter.\<close>

definition empty_configuration :: "'n LoggerConfiguration" where
  "empty_configuration =
     \<lparr>minLogLevel = None, includeTimestamp = None, formatLog = None,
      jsonValueSerializer = None\<rparr>"

text \<open>The private fields of a \<open>Logger\<close>.\<close>

record 'n Logger =
  this_supportedLogLevels :: "string list"
  this_includeTimestamp :: bool
  this_formatLog :: "'n formatter"
  this_jsonValueSerializer :: "'n serializer"

text \<open>\<open>a ?? b\<close>\<close>

definition nullish :: "'a option \<Rightarrow> 'a \<Rightarrow> 'a" where
  "nullish a b = (case a of None \<Rightarrow> b | Some v \<Rightarrow> v)"

text \<open>The constructor of \<open>Logger\<close>.\<close>

definition constructor :: "'n runtime \<Rightarrow> 'n LoggerConfiguration \<Rightarrow> 'n Logger" where
  "constructor rt configuration =
     \<lparr>this_supportedLogLevels =
        filter_indexed
          (\<lambda>_ i. int i \<ge> indexOf LOG_LEVELS (nullish (minLogLevel configuration) ''trace''))
          LOG_LEVELS,
      this_includeTimestamp = nullish (includeTimestamp configuration) True,
      this_formatLog = nullish (formatLog configuration) (defaultFormatLog rt),
      this_jsonValueSerializer =
        nullish (jsonValueSerializer configuration) defaultJsonValueSerializer\<rparr>"

text \<open>
  \<open>console.log\<close> of one argument, on the list of the texts written to standard
  output so far, each followed by a line end: the text, or \<open>undefined\<close> for the
  value \<open>undefined\<close>.
\<close>

definition console_log :: "string option \<Rightarrow> string list \<Rightarrow> string list" where
  "console_log x out = out @ [case x of None \<Rightarrow> ''undefined'' | Some s \<Rightarrow> s]"

text \<open>
  \<open>#handleLog\<close>. The arguments beyond the source's are the logger (\<open>this\<close>), the ISO
  text of the current time (\<open>(new Date()).toISOString()\<close>) and the standard output
  before the call. The result is the standard output after the call and how the
  call ended, or \<open>None\<close> when the formatter does not return.
\<close>

definition handleLog ::
  "'n Logger \<Rightarrow> string \<Rightarrow> string \<Rightarrow> string \<Rightarrow> string \<Rightarrow> (string \<times> 'n jsvalue) list \<Rightarrow>
   string list \<Rightarrow> (string list \<times> unit outcome) option" where
  "handleLog this now lvl ns msg ctx out =
     (if lvl \<in> set (this_supportedLogLevels this) then
        (let logObject =
               \<lparr>level = lvl, level_n = indexOf LOG_LEVELS lvl, timestamp = None,
                namespace = ns, message = msg, context' = ctx\<rparr>;
             logObject =
               (if this_includeTimestamp this then logObject\<lparr>timestamp := Some now\<rparr>
                else logObject)
         in (case this_formatLog this logObject (this_jsonValueSerializer this) of
               None \<Rightarrow> None
             | Some (Throws e) \<Rightarrow> Some (out, Throws e)
             | Some (Returns text) \<Rightarrow> Some (console_log text out, Returns ())))
      else Some (out, Returns ()))"

text \<open>The six logging methods. The context parameter's default \<open>{}\<close> is \<open>None\<close> here.\<close>

definition default_context ::
  "(string \<times> 'n jsvalue) list option \<Rightarrow> (string \<times> 'n jsvalue) list" where
  "default_context ctx = (case ctx of None \<Rightarrow> [] | Some c \<Rightarrow> c)"

definition trace ::
  "'n Logger \<Rightarrow> string \<Rightarrow> string \<Rightarrow> string \<Rightarrow> (string \<times> 'n jsvalue) list option \<Rightarrow>
   string list \<Rightarrow> (string list \<times> unit outcome) option" where
  "trace this now ns msg ctx = handleLog this now ''trace'' ns msg (default_context ctx)"

definition debug ::
  "'n Logger \<Rightarrow> string \<Rightarrow> string \<Rightarrow> string \<Rightarrow> (string \<times> 'n jsvalue) list option \<Rightarrow>
   string list \<Rightarrow> (string list \<times> unit outcome) option" where
  "debug this now ns msg ctx = handleLog this now ''debug'' ns msg (default_context ctx)"

definition info ::
  "'n Logger \<Rightarrow> string \<Rightarrow> string \<Rightarrow> string \<Rightarrow> (string \<times> 'n jsvalue) list option \<Rightarrow>
   string list \<Rightarrow> (string list \<times> unit outcome) option" where
  "info this now ns msg ctx = handleLog this now ''info'' ns msg (default_context ctx)"

definition warn ::
  "'n Logger \<Rightarrow> string \<Rightarrow> string \<Rightarrow> string \<Rightarrow> (string \<times> 'n jsvalue) list option \<Rightarrow>
   string list \<Rightarrow> (string list \<times> unit outcome) option" where
  "warn this now ns msg ctx = handleLog this now ''warn'' ns msg (default_context ctx)"

definition error ::
  "'n Logger \<Rightarrow> string \<Rightarrow> string \<Rightarrow> string \<Rightarrow> (string \<times> 'n jsvalue) list option \<Rightarrow>
   string list \<Rightarrow> (string list \<times> unit outcome) option" where
  "error this now ns msg ctx = handleLog this now ''error'' ns msg (default_context ctx)"

definition fatal ::
  "'n Logger \<Rightarrow> string \<Rightarrow> string \<Rightarrow> string \<Rightarrow> (string \<times> 'n jsvalue) list option \<Rightarrow>
   string list \<Rightarrow> (string list \<times> unit outcome) option" where
  "fatal this now ns msg ctx = handleLog this now ''fatal'' ns msg (default_context ctx)"

section \<open>Notions for the proofs about JSON texts\<close>




section \<open>Notions for the properties of the logger\<close>

text \<open>A JSON value as a value of the program.\<close>

fun native :: "'n json \<Rightarrow> 'n jsvalue" where
  "native JNull = VNull"
| "native (JBool b) = VBool b"
| "native (JNum n) = VNum n"
| "native (JStr s) = VStr s"
| "native (JArr xs) = VArr (map native xs)"
| "native (JObj kvs) = VObj (map (\<lambda>kv. (fst kv, native (snd kv))) kvs)"

text \<open>
  What ECMAScript says of the eleven classes of typed arrays: the \<open>name\<close> of the
  class and the number of bytes of an element (\<open>BYTES_PER_ELEMENT\<close>).
\<close>

fun type_name :: "typed_array \<Rightarrow> string" where
  "type_name Int8Array = ''Int8Array''"
| "type_name Uint8Array = ''Uint8Array''"
| "type_name Uint8ClampedArray = ''Uint8ClampedArray''"
| "type_name Int16Array = ''Int16Array''"
| "type_name Uint16Array = ''Uint16Array''"
| "type_name Int32Array = ''Int32Array''"
| "type_name Uint32Array = ''Uint32Array''"
| "type_name Float32Array = ''Float32Array''"
| "type_name Float64Array = ''Float64Array''"
| "type_name BigInt64Array = ''BigInt64Array''"
| "type_name BigUint64Array = ''BigUint64Array''"

fun bytes_per_element :: "typed_array \<Rightarrow> nat" where
  "bytes_per_element Int8Array = 1"
| "bytes_per_element Uint8Array = 1"
| "bytes_per_element Uint8ClampedArray = 1"
| "bytes_per_element Int16Array = 2"
| "bytes_per_element Uint16Array = 2"
| "bytes_per_element Int32Array = 4"
| "bytes_per_element Uint32Array = 4"
| "bytes_per_element Float32Array = 4"
| "bytes_per_element Float64Array = 8"
| "bytes_per_element BigInt64Array = 8"
| "bytes_per_element BigUint64Array = 8"

text \<open>\<open>v.byteLength\<close> of a typed array.\<close>

definition byteLength :: "typed_array \<Rightarrow> 'a list \<Rightarrow> nat" where
  "byteLength t elems = bytes_per_element t * length elems"

text \<open>A context whose properties hold JSON values, as a context of the program.\<close>

definition native_context :: "(string \<times> 'n json) list \<Rightarrow> (string \<times> 'n jsvalue) list" where
  "native_context kvs = map (\<lambda>kv. (fst kv, native (snd kv))) kvs"

text \<open>The logging method of a logger that bears the name of a level.\<close>

definition log_method ::
  "string \<Rightarrow> 'n Logger \<Rightarrow> string \<Rightarrow> string \<Rightarrow> string \<Rightarrow> (string \<times> 'n jsvalue) list option \<Rightarrow>
   string list \<Rightarrow> (string list \<times> unit outcome) option" where
  "log_method lvl =
     (if lvl = ''trace'' then trace
      else if lvl = ''debug'' then debug
      else if lvl = ''info'' then info
      else if lvl = ''warn'' then warn
      else if lvl = ''error'' then error
      else fatal)"

text \<open>
  The record of a call: its level, the index of the level, the namespace, the message
  and the context of the call, and the current time when the logger includes it.
\<close>

definition logObject_of ::
  "'n Logger \<Rightarrow> string \<Rightarrow> string \<Rightarrow> string \<Rightarrow> string \<Rightarrow> (string \<times> 'n jsvalue) list \<Rightarrow>
   'n LogObject" where
  "logObject_of this now lvl ns msg ctx =
     \<lparr>level = lvl, level_n = indexOf LOG_LEVELS lvl,
      timestamp = (if this_includeTimestamp this then Some now else None),
      namespace = ns, message = msg, context' = ctx\<rparr>"

text \<open>
  The JSON value of a record whose context has the JSON value \<open>c\<close>: the properties
  in the order in which the line has them.
\<close>

definition LogObject_json :: "'n runtime \<Rightarrow> 'n LogObject \<Rightarrow> 'n json \<Rightarrow> 'n json" where
  "LogObject_json rt l c =
     JObj ([(''level'', JStr (level l)),
            (''level_n'', JNum (Number_of_int rt (level_n l))),
            (''namespace'', JStr (namespace l)),
            (''message'', JStr (message l)),
            (''context'', c)] @
           (case timestamp l of None \<Rightarrow> [] | Some t \<Rightarrow> [(''timestamp'', JStr t)]))"

text \<open>
  The number of lines on standard output: \<open>console.log\<close> ends each text with a line
  end, and each newline inside a text ends a line as well.
\<close>

definition line_count :: "string list \<Rightarrow> nat" where
  "line_count out = sum_list (map (\<lambda>text. length (split_newline text)) out)"

text \<open>
  The configuration \<open>{minLogLevel: m, includeTimestamp: ts}\<close>, where each of the two
  may be absent: the formatter and the serializer are the default ones.
\<close>

definition configuration_of :: "string option \<Rightarrow> bool option \<Rightarrow> 'n LoggerConfiguration" where
  "configuration_of m ts =
     \<lparr>minLogLevel = m, includeTimestamp = ts, formatLog = None, jsonValueSerializer = None\<rparr>"

text \<open>Two functions of a caller: the serializer \<open>(_k, v) => v\<close> and the formatter
  \<open>(l) => `${l.level}\n${l.message}`\<close>.\<close>

definition passing_serializer :: "'n serializer" where
  "passing_serializer k v = Returns v"

definition two_line_formatLog :: "'n formatter" where
  "two_line_formatLog l ser = Some (Returns (Some (level l @ [newline] @ message l)))"

section \<open>Properties of the line assembler\<close>

lemma split_newline_nonempty: "split_newline s \<noteq> []"
  by (induction s) (auto split: list.splits)

lemma split_newline_append:
  "split_newline (a @ b) =
     butlast (split_newline a) @ split_newline (last (split_newline a) @ b)"
proof (induction a)
  case Nil
  show ?case by simp
next
  case (Cons c cs)
  obtain p ps where sp: "split_newline cs = p # ps"
    using split_newline_nonempty [of cs] by (cases "split_newline cs") auto
  obtain q qs where sq: "split_newline (cs @ b) = q # qs"
    using split_newline_nonempty [of "cs @ b"] by (cases "split_newline (cs @ b)") auto
  show ?case
  proof (cases "c = newline")
    case True
    with Cons sp show ?thesis by simp
  next
    case False
    show ?thesis
    proof (cases ps)
      case Nil
      with Cons sp sq False show ?thesis by simp
    next
      case (Cons r rs)
      with Cons.IH sp sq False show ?thesis by simp
    qed
  qed
qed

lemma main_step_unfold:
  "main_step decode handler st chunk =
     \<lparr>partial = last (split_newline (partial st @ decode chunk)),
      handled = handled st @ map handler (butlast (split_newline (partial st @ decode chunk)))\<rparr>"
  by (simp add: main_step_def pop_def nullish_or_empty_def split_newline_nonempty Let_def)

lemma split_newline_no_newline: "newline \<notin> set s \<Longrightarrow> split_newline s = [s]"
  by (induction s) auto

lemma split_newline_pieces: "p \<in> set (split_newline s) \<Longrightarrow> newline \<notin> set p"
proof (induction s arbitrary: p)
  case Nil
  then show ?case by simp
next
  case (Cons c cs)
  obtain q qs where sq: "split_newline cs = q # qs"
    using split_newline_nonempty [of cs] by (cases "split_newline cs") auto
  show ?case
  proof (cases "c = newline")
    case True
    with Cons show ?thesis by auto
  next
    case False
    with Cons.prems sq have "p = c # q \<or> p \<in> set qs" by simp
    then show ?thesis
      using Cons.IH [of q] Cons.IH [of p] sq False by auto
  qed
qed

lemma split_newline_last: "newline \<notin> set (last (split_newline s))"
  using split_newline_pieces [of "last (split_newline s)" s] split_newline_nonempty [of s]
  by simp

lemma foldl_main_step:
  "newline \<notin> set (partial st) \<Longrightarrow>
   partial (foldl (main_step decode handler) st chunks) =
     last (split_newline (partial st @ concat (map decode chunks))) \<and>
   handled (foldl (main_step decode handler) st chunks) =
     handled st @
       map handler (butlast (split_newline (partial st @ concat (map decode chunks))))"
proof (induction chunks arbitrary: st)
  case Nil
  then show ?case
    by (simp add: split_newline_no_newline)
next
  case (Cons c cs)
  let ?st = "main_step decode handler st c"
  have "newline \<notin> set (partial ?st)"
    by (simp add: main_step_unfold split_newline_last)
  from Cons.IH [OF this]
  have ih: "partial (foldl (main_step decode handler) ?st cs) =
              last (split_newline (partial ?st @ concat (map decode cs)))"
    and ih': "handled (foldl (main_step decode handler) ?st cs) =
              handled ?st @
                map handler (butlast (split_newline (partial ?st @ concat (map decode cs))))"
    by simp_all
  let ?a = "partial st @ decode c" and ?b = "concat (map decode cs)"
  have sp: "split_newline (?a @ ?b) =
              butlast (split_newline ?a) @ split_newline (last (split_newline ?a) @ ?b)"
    by (rule split_newline_append)
  have ne: "split_newline (last (split_newline ?a) @ ?b) \<noteq> []"
    by (rule split_newline_nonempty)
  have eq: "partial st @ concat (map decode (c # cs)) = ?a @ ?b"
    by simp
  have p: "partial ?st = last (split_newline ?a)"
    and h: "handled ?st = handled st @ map handler (butlast (split_newline ?a))"
    by (simp_all add: main_step_unfold)
  show ?case
    unfolding eq sp foldl_Cons ih ih' p h
    using ne by (simp add: butlast_append)
qed

lemma main_loop_state:
  "partial (main_loop decode handler chunks) =
     last (split_newline (concat (map decode chunks))) \<and>
   handled (main_loop decode handler chunks) =
     map handler (butlast (split_newline (concat (map decode chunks))))"
  using foldl_main_step [of main_init decode handler chunks]
  by (simp add: main_loop_def main_init_def)

lemma join_split_newline: "join [newline] (split_newline s) = s"
proof (induction s)
  case Nil
  show ?case by simp
next
  case (Cons c cs)
  obtain p ps where sp: "split_newline cs = p # ps"
    using split_newline_nonempty [of cs] by (cases "split_newline cs") auto
  with Cons show ?case
    by (cases ps) auto
qed

text \<open>
  C1 (as stated, refuted): the chunks \<open>"ab"\<close>, \<open>"c\ndef\ng"\<close>, \<open>"hi\n"\<close> do not yield the
  lines \<open>["abcdef", "ghi"]\<close>.
\<close>

theorem C1_lines_counterexample:
  "main_lines (\<lambda>chunk. chunk) [''ab'', ''c\<newline>def\<newline>g'', ''hi\<newline>''] \<noteq> [''abcdef'', ''ghi'']"
  by (simp add: main_lines_def main_loop_def main_step_def main_init_def pop_def
      nullish_or_empty_def newline_def)

text \<open>
  C1 (amended): the chunks \<open>"ab"\<close>, \<open>"c\ndef\ng"\<close>, \<open>"hi\n"\<close>, fed in that order, yield
  exactly the lines \<open>["abc", "def", "ghi"]\<close> in that order, nothing is left pending, and
  the lines, each followed by a newline, are the concatenation of the chunks: no
  character is lost or duplicated.
\<close>

theorem C1_lines:
  "main_lines (\<lambda>chunk. chunk) [''ab'', ''c\<newline>def\<newline>g'', ''hi\<newline>''] = [''abc'', ''def'', ''ghi''] \<and>
   partial (main_loop (\<lambda>chunk. chunk) (\<lambda>line. line) [''ab'', ''c\<newline>def\<newline>g'', ''hi\<newline>'']) = [] \<and>
   concat (map (\<lambda>line. line @ [newline])
     (main_lines (\<lambda>chunk. chunk) [''ab'', ''c\<newline>def\<newline>g'', ''hi\<newline>''])) =
   concat [''ab'', ''c\<newline>def\<newline>g'', ''hi\<newline>'']"
  by (simp add: main_lines_def main_loop_def main_step_def main_init_def pop_def
      nullish_or_empty_def newline_def)

lemma join_newline_lines:
  "ps \<noteq> [] \<Longrightarrow>
   join [newline] ps = concat (map (\<lambda>line. line @ [newline]) (butlast ps)) @ last ps"
  by (induction "[newline]" ps rule: join.induct) simp_all

text \<open>
  C4: for every finite sequence of chunks, each step appends the decoded chunk to the
  pending buffer, splits the buffer at the newlines, hands all pieces but the last to
  the line handler in order and keeps the last piece as the new pending buffer. The
  pieces of a text hold no newline, and joined with newlines they give the text. So
  the lines handled for the whole stream are the pieces of the whole decoded text
  except the last, the pending buffer at the end of the stream is that last piece,
  and \<open>main\<close> prints the rendering of the handled lines only: the pending buffer is
  dropped. No handled line and no pending buffer holds a newline, and the handled
  lines, each followed by a newline, and then the pending buffer are the decoded
  text.
\<close>

theorem C4_line_assembler:
  "main_step decode handler st chunk =
     \<lparr>partial = last (split_newline (partial st @ decode chunk)),
      handled = handled st @
        map handler (butlast (split_newline (partial st @ decode chunk)))\<rparr> \<and>
   (\<forall>piece \<in> set (split_newline s). newline \<notin> set piece) \<and>
   join [newline] (split_newline s) = s \<and>
   handled (main_loop decode handler chunks) =
     map handler (butlast (split_newline (concat (map decode chunks)))) \<and>
   partial (main_loop decode handler chunks) =
     last (split_newline (concat (map decode chunks))) \<and>
   main rt decode chunks =
     map (prettyPrintLogObject rt) (butlast (split_newline (concat (map decode chunks)))) \<and>
   join [newline] (main_lines decode chunks @
       [partial (main_loop decode (\<lambda>line. line) chunks)]) =
     concat (map decode chunks) \<and>
   (\<forall>line \<in> set (main_lines decode chunks). newline \<notin> set line) \<and>
   newline \<notin> set (partial (main_loop decode handler chunks)) \<and>
   newline \<notin> set (partial (main_step decode handler st chunk)) \<and>
   length (main rt decode chunks) = length (filter (\<lambda>c. c = newline) (concat (map decode chunks))) \<and>
   concat (map (\<lambda>line. line @ [newline]) (main_lines decode chunks)) @
       partial (main_loop decode handler chunks) =
     concat (map decode chunks)"
proof -
  let ?pieces = "split_newline (concat (map decode chunks))"
  have ne: "?pieces \<noteq> []"
    by (rule split_newline_nonempty)
  then have bl: "butlast ?pieces @ [last ?pieces] = ?pieces"
    by simp
  then have j: "join [newline] (butlast ?pieces @ [last ?pieces]) = concat (map decode chunks)"
    by (simp add: join_split_newline)
  have pieces: "\<forall>piece \<in> set (split_newline s). newline \<notin> set piece" for s
    using split_newline_pieces by blast
  have lines: "\<forall>line \<in> set (butlast ?pieces). newline \<notin> set line"
    using pieces [of "concat (map decode chunks)"] in_set_butlastD by fast
  have c: "concat (map (\<lambda>line. line @ [newline]) (butlast ?pieces)) @ last ?pieces =
      concat (map decode chunks)"
    using join_newline_lines [OF ne] by (simp add: join_split_newline)
  have count: "length (filter (\<lambda>c. c = newline) (concat (map (\<lambda>line. line @ [newline]) ls) @ p)) =
      length ls" if "\<forall>line \<in> set ls. newline \<notin> set line" and "newline \<notin> set p" for ls p
    using that
  proof (induction ls)
    case Nil
    then show ?case by (auto simp: filter_empty_conv)
  next
    case (Cons l ls)
    then have "filter (\<lambda>c. c = newline) l = []"
      by (auto simp: filter_empty_conv)
    with Cons show ?case by simp
  qed
  have n: "length (butlast ?pieces) =
      length (filter (\<lambda>c. c = newline) (concat (map decode chunks)))"
    using count [OF lines split_newline_last [of "concat (map decode chunks)"]]
    unfolding c by simp
  show ?thesis
    using j pieces [of s] lines c n
    by (simp add: main_step_unfold main_loop_state main_def main_lines_def join_split_newline
        split_newline_last)
qed

theorem C4_line_assembler_witness:
  "main_lines (\<lambda>chunk. chunk) [''x\<newline>y'', ''z'', ''\<newline>w''] = [''x'', ''yz''] \<and>
   partial (main_loop (\<lambda>chunk. chunk) (\<lambda>line. line) [''x\<newline>y'', ''z'', ''\<newline>w'']) = ''w'' \<and>
   newline \<notin> set ''x'' \<and> newline \<notin> set ''yz'' \<and> newline \<notin> set ''w'' \<and>
   split_newline ''x\<newline>yz\<newline>w'' = [''x'', ''yz'', ''w'']"
proof -
  let ?chunks = "[''x\<newline>y'', ''z'', ''\<newline>w'']"
  have s: "split_newline (concat (map (\<lambda>chunk. chunk) ?chunks)) = [''x'', ''yz'', ''w'']"
    and s': "split_newline ''x\<newline>yz\<newline>w'' = [''x'', ''yz'', ''w'']"
    by (simp_all add: newline_def)
  from C4_line_assembler [of "\<lambda>chunk. chunk" "\<lambda>line. line" main_init "[]" "''x\<newline>yz\<newline>w''"
      ?chunks plain_runtime]
  have "handled (main_loop (\<lambda>chunk. chunk) (\<lambda>line. line) ?chunks) =
          map (\<lambda>line. line) (butlast (split_newline (concat (map (\<lambda>chunk. chunk) ?chunks))))"
    and "partial (main_loop (\<lambda>chunk. chunk) (\<lambda>line. line) ?chunks) =
          last (split_newline (concat (map (\<lambda>chunk. chunk) ?chunks)))"
    and "\<forall>piece \<in> set (split_newline ''x\<newline>yz\<newline>w''). newline \<notin> set piece"
    by blast+
  then show ?thesis
    unfolding s s' by (simp add: main_lines_def)
qed

section \<open>Properties of the record renderer\<close>

lemma try_block_rendered:
  assumes "JSON_parse rt line = Some json" and "isLogObject json"
  shows "try_block rt line =
     Inr (level_switch rt (get_property json ''level'') [] @ ''['' @
          cyan rt (string_property (get_property json ''namespace'')) @ ''] '' @
          white rt (string_property (get_property json ''message'')) @ [newline] @
          gray rt (JSON_stringify rt (object_property (get_property json ''context'')) 2))"
  using assms by (simp add: try_block_def Let_def)

text \<open>
  C2 (amended): for every line that parses as JSON and satisfies the shape check with a
  recognized level, the rendering is the severity tag of the level, one of six exact
  tags of 8 characters each (\<open>TRACE > \<close>, \<open>DEBUG > \<close>, \<open> INFO > \<close>, \<open> WARN > \<close>,
  \<open>ERROR > \<close>, \<open>FATAL > \<close>, in the colour of the level), then the namespace in
  brackets, a space and the message, then a newline and the context as
  \<open>JSON.stringify(context, null, 2)\<close> prints it.
\<close>

theorem C2_rendering:
  assumes "JSON_parse rt line = Some json"
    and "isLogObject json"
    and "get_property json ''level'' = Some (JStr lvl)"
    and "get_property json ''namespace'' = Some (JStr ns)"
    and "get_property json ''message'' = Some (JStr msg)"
    and "get_property json ''context'' = Some ctx"
    and "(lvl, tag, paint) \<in> set
           [(''trace'', ''TRACE > '', gray rt), (''debug'', ''DEBUG > '', blue rt),
            (''info'', '' INFO > '', green rt), (''warn'', '' WARN > '', yellow rt),
            (''error'', ''ERROR > '', red rt), (''fatal'', ''FATAL > '', magenta rt)]"
  shows "length tag = 8 \<and>
         prettyPrintLogObject rt line =
           paint tag @ ''['' @ cyan rt ns @ ''] '' @ white rt msg @ [newline] @
           gray rt (JSON_stringify rt ctx 2)"
proof -
  from assms(7) have
    "(lvl = ''trace'' \<and> tag = ''TRACE > '' \<and> paint = gray rt) \<or>
     (lvl = ''debug'' \<and> tag = ''DEBUG > '' \<and> paint = blue rt) \<or>
     (lvl = ''info'' \<and> tag = '' INFO > '' \<and> paint = green rt) \<or>
     (lvl = ''warn'' \<and> tag = '' WARN > '' \<and> paint = yellow rt) \<or>
     (lvl = ''error'' \<and> tag = ''ERROR > '' \<and> paint = red rt) \<or>
     (lvl = ''fatal'' \<and> tag = ''FATAL > '' \<and> paint = magenta rt)"
    by simp
  then have "length tag = 8 \<and> level_switch rt (Some (JStr lvl)) [] = paint tag"
    by (elim disjE conjE) (simp_all add: level_switch_def)
  with assms(3-6) try_block_rendered [OF assms(1,2)] show ?thesis
    by (simp add: prettyPrintLogObject_def)
qed

text \<open>
  C2 (as stated, refuted): none of the six tags has 7 characters, so the rendering of
  the specification's own example line does not begin with a 7-character tag.
\<close>

theorem C2_tag_width_counterexample:
  "\<not> (\<exists>tag \<in> set [''TRACE > '', ''DEBUG > '', '' INFO > '', '' WARN > '', ''ERROR > '',
                     ''FATAL > ''].
        length tag = 7 \<and>
        prefix tag (prettyPrintLogObject plain_runtime
          ''{\"level\":\"error\",\"level_n\":4,\"namespace\":\"my-app.db\",\"message\":\"Could not connect\",\"context\":{\"retries\":3}}''))"
  by simp

theorem C2_rendering_witness:
  "JSON_parse plain_runtime
     ''{\"level\":\"error\",\"level_n\":4,\"namespace\":\"my-app.db\",\"message\":\"Could not connect\",\"context\":{\"retries\":3}}'' =
     Some (JObj [(''level'', JStr ''error''), (''level_n'', JNum 4),
                 (''namespace'', JStr ''my-app.db''), (''message'', JStr ''Could not connect''),
                 (''context'', JObj [(''retries'', JNum 3)])]) \<and>
   isLogObject (JObj [(''level'', JStr ''error''), (''level_n'', JNum 4),
                 (''namespace'', JStr ''my-app.db''), (''message'', JStr ''Could not connect''),
                 (''context'', JObj [(''retries'', JNum 3)])]) \<and>
   length ''ERROR > '' = 8 \<and>
   prettyPrintLogObject plain_runtime
     ''{\"level\":\"error\",\"level_n\":4,\"namespace\":\"my-app.db\",\"message\":\"Could not connect\",\"context\":{\"retries\":3}}'' =
     ''ERROR > [my-app.db] Could not connect\<newline>{\<newline>  \"retries\": 3\<newline>}''"
proof -
  let ?line = "''{\"level\":\"error\",\"level_n\":4,\"namespace\":\"my-app.db\",\"message\":\"Could not connect\",\"context\":{\"retries\":3}}''"
  let ?json = "JObj [(''level'', JStr ''error''), (''level_n'', JNum 4),
                 (''namespace'', JStr ''my-app.db''), (''message'', JStr ''Could not connect''),
                 (''context'', JObj [(''retries'', JNum 3)])]"
  have "JSON_parse_text ?line = Some ?json"
    by code_simp
  then have p: "JSON_parse plain_runtime ?line = Some ?json"
    by (simp add: plain_runtime_def)
  have l: "isLogObject ?json"
    by (simp add: isLogObject_def)
  have s: "JSON_stringify plain_runtime (JObj [(''retries'', JNum 3)]) 2 = ''{\<newline>  \"retries\": 3\<newline>}''"
    unfolding plain_runtime_def by code_simp
  have c: "red plain_runtime = (\<lambda>s. s)" "cyan plain_runtime = (\<lambda>s. s)"
    "white plain_runtime = (\<lambda>s. s)" "gray plain_runtime = (\<lambda>s. s)"
    by (simp_all add: plain_runtime_def)
  from C2_rendering [OF p l, of "''error''" "''my-app.db''" "''Could not connect''"
      "JObj [(''retries'', JNum 3)]" "''ERROR > ''" "red plain_runtime"]
  show ?thesis
    using p l by (simp add: s c newline_def)
qed

lemma has_property_iff: "has_property k (JObj kvs) \<longleftrightarrow> map_of kvs k \<noteq> None"
  by (simp add: map_of_eq_None_iff)

lemma typeof_string: "typeof x = ''string'' \<longleftrightarrow> (\<exists>s. x = Some (JStr s))"
  by (cases x rule: typeof.cases) auto

lemma typeof_number: "typeof x = ''number'' \<longleftrightarrow> (\<exists>n. x = Some (JNum n))"
  by (cases x rule: typeof.cases) auto

lemma typeof_object:
  "typeof x = ''object'' \<and> x \<noteq> Some JNull \<longleftrightarrow>
     (\<exists>xs. x = Some (JArr xs)) \<or> (\<exists>kvs. x = Some (JObj kvs))"
  by (cases x rule: typeof.cases) auto

lemma isLogObject_shape:
  "isLogObject json \<longleftrightarrow>
     (\<exists>kvs lvl n ns msg ctx.
        json = JObj kvs \<and>
        map_of kvs ''level'' = Some (JStr lvl) \<and>
        map_of kvs ''level_n'' = Some (JNum n) \<and>
        map_of kvs ''namespace'' = Some (JStr ns) \<and>
        map_of kvs ''message'' = Some (JStr msg) \<and>
        map_of kvs ''context'' = Some ctx \<and>
        ((\<exists>xs. ctx = JArr xs) \<or> (\<exists>ps. ctx = JObj ps)))"
proof (cases json)
  case (JObj kvs)
  have "typeof (map_of kvs ''context'') = ''object'' \<and> map_of kvs ''context'' \<noteq> Some JNull
        \<longleftrightarrow> (\<exists>ctx. map_of kvs ''context'' = Some ctx \<and>
               ((\<exists>xs. ctx = JArr xs) \<or> (\<exists>ps. ctx = JObj ps)))"
    by (auto simp: typeof_object)
  then show ?thesis
    unfolding isLogObject_def JObj
    by (simp add: has_property_iff typeof_string typeof_number del: has_property.simps) blast
qed (simp_all add: isLogObject_def)

text \<open>
  C5: the renderer always prints a string. A line that does not parse as JSON, and a
  line that parses to a value that fails the shape check, is printed as it is, in gray;
  so is in particular a JSON line without \<open>context\<close> property. The shape check holds
  exactly for an object whose \<open>level\<close>, \<open>namespace\<close> and \<open>message\<close> are strings, whose
  \<open>level_n\<close> is a number and whose \<open>context\<close> is an object (an array counts as one,
  as \<open>typeof\<close> has it).
\<close>

theorem C5_pass_through:
  "(JSON_parse rt line = None \<longrightarrow> prettyPrintLogObject rt line = gray rt line) \<and>
   (JSON_parse rt line = Some json \<and> \<not> isLogObject json \<longrightarrow>
      prettyPrintLogObject rt line = gray rt line) \<and>
   (JSON_parse rt line = Some json \<and> \<not> has_property ''context'' json \<longrightarrow>
      prettyPrintLogObject rt line = gray rt line) \<and>
   (isLogObject json \<longleftrightarrow>
     (\<exists>kvs lvl n ns msg ctx.
        json = JObj kvs \<and>
        map_of kvs ''level'' = Some (JStr lvl) \<and>
        map_of kvs ''level_n'' = Some (JNum n) \<and>
        map_of kvs ''namespace'' = Some (JStr ns) \<and>
        map_of kvs ''message'' = Some (JStr msg) \<and>
        map_of kvs ''context'' = Some ctx \<and>
        ((\<exists>xs. ctx = JArr xs) \<or> (\<exists>ps. ctx = JObj ps))))"
proof -
  have "\<not> has_property ''context'' json \<Longrightarrow> \<not> isLogObject json"
    by (simp add: isLogObject_def)
  then show ?thesis
    using isLogObject_shape [of json]
    by (auto simp: prettyPrintLogObject_def try_block_def)
qed

theorem C5_pass_through_witness:
  "JSON_parse plain_runtime ''starting server on :8080'' = None \<and>
   prettyPrintLogObject plain_runtime ''starting server on :8080'' = ''starting server on :8080'' \<and>
   JSON_parse plain_runtime
     ''{\"level\":\"info\",\"level_n\":2,\"namespace\":\"app\",\"message\":\"up\"}'' =
     Some (JObj [(''level'', JStr ''info''), (''level_n'', JNum 2),
                 (''namespace'', JStr ''app''), (''message'', JStr ''up'')]) \<and>
   \<not> has_property ''context'' (JObj [(''level'', JStr ''info''), (''level_n'', JNum 2),
                 (''namespace'', JStr ''app''), (''message'', JStr ''up'')]) \<and>
   prettyPrintLogObject plain_runtime
     ''{\"level\":\"info\",\"level_n\":2,\"namespace\":\"app\",\"message\":\"up\"}'' =
     ''{\"level\":\"info\",\"level_n\":2,\"namespace\":\"app\",\"message\":\"up\"}''"
proof -
  let ?text = "''starting server on :8080''"
  let ?line = "''{\"level\":\"info\",\"level_n\":2,\"namespace\":\"app\",\"message\":\"up\"}''"
  let ?json = "JObj [(''level'', JStr ''info''), (''level_n'', JNum 2),
                 (''namespace'', JStr ''app''), (''message'', JStr ''up'')]"
  have "JSON_parse_text ?text = None"
    by code_simp
  then have p1: "JSON_parse plain_runtime ?text = None"
    by (simp add: plain_runtime_def)
  have "JSON_parse_text ?line = Some ?json"
    by code_simp
  then have p2: "JSON_parse plain_runtime ?line = Some ?json"
    by (simp add: plain_runtime_def)
  have h: "\<not> has_property ''context'' ?json"
    by simp
  have g: "gray plain_runtime = (\<lambda>s. s)"
    by (simp add: plain_runtime_def)
  from C5_pass_through [of plain_runtime ?text JNull] p1
  have r1: "prettyPrintLogObject plain_runtime ?text = ?text"
    by (simp add: g)
  from C5_pass_through [of plain_runtime ?line ?json] p2 h
  have r2: "prettyPrintLogObject plain_runtime ?line = ?line"
    by (simp add: g)
  from p1 r1 p2 h r2 show ?thesis
    by blast
qed

text \<open>
  C10: two lines that both parse as JSON, both satisfy the shape check and agree on the
  level, namespace, message and context have the same rendering, whatever their
  timestamps, \<open>level_n\<close> and other properties are.
\<close>

theorem C10_timestamp_independent:
  assumes "JSON_parse rt line1 = Some json1" and "JSON_parse rt line2 = Some json2"
    and "isLogObject json1" and "isLogObject json2"
    and "get_property json1 ''level'' = get_property json2 ''level''"
    and "get_property json1 ''namespace'' = get_property json2 ''namespace''"
    and "get_property json1 ''message'' = get_property json2 ''message''"
    and "get_property json1 ''context'' = get_property json2 ''context''"
  shows "prettyPrintLogObject rt line1 = prettyPrintLogObject rt line2"
  using assms by (simp add: prettyPrintLogObject_def try_block_def Let_def)

theorem C10_timestamp_independent_witness:
  "JSON_parse plain_runtime
     ''{\"level\":\"warn\",\"level_n\":3,\"timestamp\":\"2023-01-01T00:00:00.000Z\",\"namespace\":\"app\",\"message\":\"slow\",\"context\":{\"ms\":120}}'' =
     Some (JObj [(''level'', JStr ''warn''), (''level_n'', JNum 3),
                 (''timestamp'', JStr ''2023-01-01T00:00:00.000Z''),
                 (''namespace'', JStr ''app''), (''message'', JStr ''slow''),
                 (''context'', JObj [(''ms'', JNum 120)])]) \<and>
   JSON_parse plain_runtime
     ''{\"level\":\"warn\",\"level_n\":7,\"namespace\":\"app\",\"message\":\"slow\",\"context\":{\"ms\":120},\"host\":\"a1\"}'' =
     Some (JObj [(''level'', JStr ''warn''), (''level_n'', JNum 7),
                 (''namespace'', JStr ''app''), (''message'', JStr ''slow''),
                 (''context'', JObj [(''ms'', JNum 120)]), (''host'', JStr ''a1'')]) \<and>
   prettyPrintLogObject plain_runtime
     ''{\"level\":\"warn\",\"level_n\":3,\"timestamp\":\"2023-01-01T00:00:00.000Z\",\"namespace\":\"app\",\"message\":\"slow\",\"context\":{\"ms\":120}}'' =
   prettyPrintLogObject plain_runtime
     ''{\"level\":\"warn\",\"level_n\":7,\"namespace\":\"app\",\"message\":\"slow\",\"context\":{\"ms\":120},\"host\":\"a1\"}''"
proof -
  let ?line1 = "''{\"level\":\"warn\",\"level_n\":3,\"timestamp\":\"2023-01-01T00:00:00.000Z\",\"namespace\":\"app\",\"message\":\"slow\",\"context\":{\"ms\":120}}''"
  let ?line2 = "''{\"level\":\"warn\",\"level_n\":7,\"namespace\":\"app\",\"message\":\"slow\",\"context\":{\"ms\":120},\"host\":\"a1\"}''"
  let ?json1 = "JObj [(''level'', JStr ''warn''), (''level_n'', JNum 3),
                 (''timestamp'', JStr ''2023-01-01T00:00:00.000Z''),
                 (''namespace'', JStr ''app''), (''message'', JStr ''slow''),
                 (''context'', JObj [(''ms'', JNum 120)])]"
  let ?json2 = "JObj [(''level'', JStr ''warn''), (''level_n'', JNum 7),
                 (''namespace'', JStr ''app''), (''message'', JStr ''slow''),
                 (''context'', JObj [(''ms'', JNum 120)]), (''host'', JStr ''a1'')]"
  have "JSON_parse_text ?line1 = Some ?json1"
    by code_simp
  then have p1: "JSON_parse plain_runtime ?line1 = Some ?json1"
    by (simp add: plain_runtime_def)
  have "JSON_parse_text ?line2 = Some ?json2"
    by code_simp
  then have p2: "JSON_parse plain_runtime ?line2 = Some ?json2"
    by (simp add: plain_runtime_def)
  have l1: "isLogObject ?json1" and l2: "isLogObject ?json2"
    by (simp_all add: isLogObject_def)
  have "prettyPrintLogObject plain_runtime ?line1 = prettyPrintLogObject plain_runtime ?line2"
    by (rule C10_timestamp_independent [OF p1 p2 l1 l2]) simp_all
  with p1 p2 show ?thesis
    by blast
qed

section \<open>Decimal numerals\<close>

lemma digit_value_digit_char: "d < 10 \<Longrightarrow> digit_value (digit_char d) = d"
  by (simp add: digit_value_def digit_char_def)

lemma string_of_nat_digits_aux:
  "foldl (\<lambda>a c. 10 * a + digit_value c) acc (string_of_nat n) =
     acc * 10 ^ length (string_of_nat n) + n"
proof (induction n arbitrary: acc rule: string_of_nat.induct)
  case (1 n)
  show ?case
  proof (cases "n < 10")
    case True
    then show ?thesis
      by (subst (1 2) string_of_nat.simps) (simp add: digit_value_digit_char)
  next
    case False
    have d: "digit_value (digit_char (n mod 10)) = n mod 10"
      by (simp add: digit_value_digit_char)
    from False 1 [of acc]
    have "foldl (\<lambda>a c. 10 * a + digit_value c) acc (string_of_nat (n div 10)) =
            acc * 10 ^ length (string_of_nat (n div 10)) + n div 10"
      by simp
    with False d show ?thesis
      by (subst (1 2) string_of_nat.simps) (simp add: algebra_simps)
  qed
qed

lemma string_of_nat_digits: "nat_of_digits (string_of_nat n) = n"
  using string_of_nat_digits_aux [of 0 n] by (simp add: nat_of_digits_def)

lemma string_of_nat_inject: "string_of_nat a = string_of_nat b \<Longrightarrow> a = b"
  by (metis string_of_nat_digits)

section \<open>Parsing what the serializer writes\<close>

lemma of_char_less_256: "(of_char c :: nat) < 256"
proof -
  have "(of_char c :: nat) mod 256 = of_char c" by simp
  then show ?thesis by (metis mod_less_divisor zero_less_numeral)
qed





lemma is_digit_digit_char: "d < 10 \<Longrightarrow> is_digit (digit_char d)"
  by (simp add: is_digit_def digit_char_def)



lemma string_of_nat_all_digits: "c \<in> set (string_of_nat n) \<Longrightarrow> is_digit c"
proof (induction n rule: string_of_nat.induct)
  case (1 n)
  show ?case
  proof (cases "n < 10")
    case True
    with "1.prems" show ?thesis
      by (subst (asm) string_of_nat.simps) (simp add: is_digit_digit_char)
  next
    case False
    with "1.prems" have "c \<in> set (string_of_nat (n div 10)) \<or> c = digit_char (n mod 10)"
      by (subst (asm) string_of_nat.simps) auto
    with False "1.IH" show ?thesis
      by (auto simp: is_digit_digit_char)
  qed
qed









lemma serialize_compact:
  "serialize [] ind (JArr xs) =
     (if xs = [] then ''[]'' else ''['' @ join '','' (map (serialize [] ind) xs) @ '']'')"
  "serialize [] ind (JObj kvs) =
     (if kvs = [] then ''{}''
      else ''{'' @ join '','' (map (\<lambda>kv. quote (fst kv) @ '':'' @ serialize [] ind (snd kv)) kvs) @
           ''}'')"
  by (simp_all add: Let_def)














section \<open>A JSON text without indentation holds no newline\<close>

lemma digit_not_newline: "is_digit c \<Longrightarrow> c \<noteq> newline"
  by (auto simp: is_digit_def newline_def)

lemma string_of_int_no_newline: "newline \<notin> set (string_of_int i)"
  using string_of_nat_all_digits digit_not_newline
  by (auto simp: string_of_int_def newline_def)

lemma hex_digit_not_newline: "n < 16 \<Longrightarrow> hex_digit n \<noteq> newline"
proof
  assume n: "n < 16" and "hex_digit n = newline"
  then have "(of_char (hex_digit n) :: nat) = of_char newline" by simp
  with n show False
    by (simp add: hex_digit_def newline_def split: if_splits)
qed

lemma quote_char_no_newline: "newline \<notin> set (quote_char c)"
proof -
  have "hex_digit (of_char c div 16) \<noteq> newline"
    using of_char_less_256 [of c] by (intro hex_digit_not_newline) (simp add: less_mult_imp_div_less)
  moreover have "hex_digit (of_char c mod 16) \<noteq> newline"
    by (intro hex_digit_not_newline) simp
  ultimately show ?thesis
    by (simp add: quote_char_def newline_def backslash_def dquote_def)
qed

lemma quote_no_newline: "newline \<notin> set (quote s)"
  using quote_char_no_newline by (auto simp: quote_def newline_def dquote_def)

lemma join_no_newline:
  "newline \<notin> set sep \<Longrightarrow> (\<And>x. x \<in> set xs \<Longrightarrow> newline \<notin> set x) \<Longrightarrow>
   newline \<notin> set (join sep xs)"
  by (induction sep xs rule: join.induct) auto

lemma serialize_no_newline: "newline \<notin> set (serialize [] ind j)"
proof (induction j)
  case (JArr xs)
  have "newline \<notin> set (join '','' (map (serialize [] ind) xs))"
    using JArr by (intro join_no_newline) (auto simp: newline_def)
  then show ?case
    unfolding serialize_compact by (simp add: newline_def)
next
  case (JObj kvs)
  have "newline \<notin> set (quote (fst kv) @ '':'' @ serialize [] ind (snd kv))" if "kv \<in> set kvs" for kv
  proof -
    have "snd kv \<in> Basic_BNFs.snds kv" by (cases kv) simp
    with that have "newline \<notin> set (serialize [] ind (snd kv))" by (intro JObj)
    then show ?thesis
      using quote_no_newline [of "fst kv"] by (simp add: newline_def)
  qed
  then have "newline \<notin> set (join '','' (map (\<lambda>kv. quote (fst kv) @ '':'' @ serialize [] ind (snd kv)) kvs))"
    by (intro join_no_newline) (auto simp: newline_def)
  then show ?case
    unfolding serialize_compact by (simp add: newline_def)
qed (simp_all add: string_of_int_no_newline quote_no_newline, simp_all add: newline_def)

section \<open>Properties of \<open>JSON.stringify\<close> with a replacer\<close>

lemma serializeJSONProperties_Nil:
  "serializeJSONProperties replacer [] = Some (Returns [])"
  by (subst serializeJSONProperties.simps) simp

lemma serializeJSONProperties_Cons:
  "serializeJSONProperties replacer (item # rest) =
     (case replacer (fst item) (toJSON (snd item)) of
        Throws e \<Rightarrow> Some (Throws e)
      | Returns v \<Rightarrow>
          Option.bind
            (case kind_of v of
               Omitted \<Rightarrow> Some (Returns None)
             | Leaf j \<Rightarrow> Some (Returns (Some j))
             | Unserializable \<Rightarrow> Some (Throws TypeError)
             | Elements xs \<Rightarrow>
                 Option.bind (serializeJSONProperties replacer (index_keys xs))
                   (\<lambda>r. case r of
                           Throws e \<Rightarrow> Some (Throws e)
                         | Returns ps \<Rightarrow> Some (Returns (Some (array_of ps))))
             | Properties kvs \<Rightarrow>
                 Option.bind (serializeJSONProperties replacer kvs)
                   (\<lambda>r. case r of
                           Throws e \<Rightarrow> Some (Throws e)
                         | Returns ps \<Rightarrow> Some (Returns (Some (object_of ps)))))
            (\<lambda>r. case r of
                    Throws e \<Rightarrow> Some (Throws e)
                  | Returns j \<Rightarrow>
                      Option.bind (serializeJSONProperties replacer rest)
                        (\<lambda>r'. case r' of
                                 Throws e \<Rightarrow> Some (Throws e)
                               | Returns ps \<Rightarrow> Some (Returns ((fst item, j) # ps)))))"
  by (subst serializeJSONProperties.simps) simp

text \<open>The walk over a list is the walk over its first property, then over the rest.\<close>

lemma serializeJSONProperties_first:
  assumes "serializeJSONProperties replacer [item] = Some (Returns [(k, j)])"
  shows "serializeJSONProperties replacer (item # rest) =
           Option.bind (serializeJSONProperties replacer rest)
             (\<lambda>r. case r of
                     Throws e \<Rightarrow> Some (Throws e)
                   | Returns ps \<Rightarrow> Some (Returns ((k, j) # ps)))"
  using assms
  unfolding serializeJSONProperties_Cons [of replacer item rest]
    serializeJSONProperties_Cons [of replacer item "[]"] serializeJSONProperties_Nil
  by (auto split: outcome.splits kind.splits option.splits Option.bind_splits)

lemma index_keys_map:
  "index_keys (map f xs) = map (\<lambda>kj. (fst kj, f (snd kj))) (index_keys xs)"
  by (simp add: index_keys_def enumerate_eq_zip zip_map2 case_prod_beta)

lemma index_keys_snd: "map snd (index_keys xs) = xs"
  by (simp add: index_keys_def comp_def)

lemma array_of_Some: "array_of (map (\<lambda>kj. (fst kj, Some (snd kj))) ps) = JArr (map snd ps)"
  by (simp add: array_of_def comp_def)

lemma object_of_Some: "object_of (map (\<lambda>kj. (fst kj, Some (snd kj))) ps) = JObj ps"
  by (induction ps) (simp_all add: object_of_def)

lemma toJSON_native: "toJSON (native j) = native j"
  by (cases j) simp_all

lemma defaultJsonValueSerializer_native:
  "defaultJsonValueSerializer k (native j) = Returns (native j)"
  by (cases j) simp_all

lemma serializeJSONProperties_native_list:
  assumes "\<And>kj k. kj \<in> set kjs \<Longrightarrow>
             serializeJSONProperties defaultJsonValueSerializer [(k, native (snd kj))] =
               Some (Returns [(k, Some (snd kj))])"
  shows "serializeJSONProperties defaultJsonValueSerializer
           (map (\<lambda>kj. (fst kj, native (snd kj))) kjs) =
         Some (Returns (map (\<lambda>kj. (fst kj, Some (snd kj))) kjs))"
  using assms
proof (induction kjs)
  case Nil
  show ?case by (simp add: serializeJSONProperties_Nil)
next
  case (Cons kj kjs)
  have first: "serializeJSONProperties defaultJsonValueSerializer [(fst kj, native (snd kj))] =
                 Some (Returns [(fst kj, Some (snd kj))])"
    using Cons.prems [of kj "fst kj"] by simp
  have rest: "serializeJSONProperties defaultJsonValueSerializer
                (map (\<lambda>kj. (fst kj, native (snd kj))) kjs) =
              Some (Returns (map (\<lambda>kj. (fst kj, Some (snd kj))) kjs))"
    using Cons.IH Cons.prems by simp
  show ?case
    using serializeJSONProperties_first [OF first, of "map (\<lambda>kj. (fst kj, native (snd kj))) kjs"]
    by (simp add: rest)
qed

lemma serializeJSONProperties_native:
  "serializeJSONProperties defaultJsonValueSerializer [(k, native j)] =
     Some (Returns [(k, Some j)])"
proof (induction j arbitrary: k)
  case (JArr xs)
  have "serializeJSONProperties defaultJsonValueSerializer
          (map (\<lambda>kj. (fst kj, native (snd kj))) (index_keys xs)) =
        Some (Returns (map (\<lambda>kj. (fst kj, Some (snd kj))) (index_keys xs)))"
  proof (rule serializeJSONProperties_native_list)
    fix kj :: "string \<times> 'a json" and k'
    assume "kj \<in> set (index_keys xs)"
    then have "snd kj \<in> set (map snd (index_keys xs))" by (metis imageI set_map)
    then have "snd kj \<in> set xs" by (simp only: index_keys_snd)
    then show "serializeJSONProperties defaultJsonValueSerializer [(k', native (snd kj))] =
                 Some (Returns [(k', Some (snd kj))])"
      by (rule JArr.IH)
  qed
  then show ?case
    by (simp add: serializeJSONProperties_Cons [of _ _ "[]"] serializeJSONProperties_Nil
        index_keys_map array_of_Some index_keys_snd)
next
  case (JObj kvs)
  have "serializeJSONProperties defaultJsonValueSerializer
          (map (\<lambda>kj. (fst kj, native (snd kj))) kvs) =
        Some (Returns (map (\<lambda>kj. (fst kj, Some (snd kj))) kvs))"
  proof (rule serializeJSONProperties_native_list)
    fix kj :: "string \<times> 'a json" and k'
    assume "kj \<in> set kvs"
    moreover have "snd kj \<in> Basic_BNFs.snds kj" by (cases kj) simp
    ultimately show "serializeJSONProperties defaultJsonValueSerializer [(k', native (snd kj))] =
                 Some (Returns [(k', Some (snd kj))])"
      by (rule JObj.IH)
  qed
  then show ?case
    by (simp add: serializeJSONProperties_Cons [of _ _ "[]"] serializeJSONProperties_Nil
        object_of_Some)
qed (simp_all add: serializeJSONProperties_Cons [of _ _ "[]"] serializeJSONProperties_Nil)

section \<open>Properties of the level gate\<close>

lemma indexOf_from_lower: "x \<in> set xs \<Longrightarrow> int i \<le> indexOf_from i xs x"
proof (induction xs arbitrary: i)
  case Nil
  then show ?case by simp
next
  case (Cons y ys)
  show ?case
  proof (cases "y = x")
    case True
    then show ?thesis by simp
  next
    case False
    with Cons.prems have "x \<in> set ys" by simp
    from Cons.IH [OF this, of "Suc i"] False show ?thesis by simp
  qed
qed


lemma drop_indexOf_from:
  "distinct xs \<Longrightarrow> x \<in> set xs \<Longrightarrow>
   (x \<in> set (drop m xs)) = (int i + int m \<le> indexOf_from i xs x)"
proof (induction xs arbitrary: i m)
  case Nil
  then show ?case by simp
next
  case (Cons y ys)
  show ?case
  proof (cases "y = x")
    case True
    with Cons.prems have notin: "x \<notin> set ys" by simp
    show ?thesis
    proof (cases m)
      case 0
      with True show ?thesis by simp
    next
      case (Suc m')
      have "x \<notin> set (drop m' ys)"
        using notin in_set_dropD by fastforce
      with True Suc show ?thesis by simp
    qed
  next
    case False
    with Cons.prems have xin: "x \<in> set ys" and d: "distinct ys" by simp_all
    show ?thesis
    proof (cases m)
      case 0
      have "int (Suc i) \<le> indexOf_from (Suc i) ys x"
        using xin by (rule indexOf_from_lower)
      with False 0 xin show ?thesis by simp
    next
      case (Suc m')
      from Cons.IH [OF d xin, of m' "Suc i"] False Suc show ?thesis
        by (simp add: algebra_simps)
    qed
  qed
qed

lemma filter_enumerate_ge:
  "map snd (filter (\<lambda>ix. k \<le> int (fst ix)) (enumerate n xs)) = drop (nat k - n) xs"
proof (induction xs arbitrary: n)
  case Nil
  show ?case by simp
next
  case (Cons x xs)
  show ?case
  proof (cases "k \<le> int n")
    case True
    then have "nat k - n = 0" and "nat k - Suc n = 0" by simp_all
    with True Cons [of "Suc n"] show ?thesis by simp
  next
    case False
    then have "nat k - n = Suc (nat k - Suc n)" by simp
    with False Cons [of "Suc n"] show ?thesis by simp
  qed
qed

lemma filter_indexed_ge: "filter_indexed (\<lambda>_ i. k \<le> int i) xs = drop (nat k) xs"
  using filter_enumerate_ge [of k 0 xs] by (simp add: filter_indexed_def)

lemma supportedLogLevels:
  "this_supportedLogLevels (constructor rt cfg) =
     drop (nat (indexOf LOG_LEVELS (nullish (minLogLevel cfg) ''trace''))) LOG_LEVELS"
  by (simp add: constructor_def filter_indexed_ge)

lemma distinct_LOG_LEVELS: "distinct LOG_LEVELS"
  by (simp add: LOG_LEVELS_def)

lemma level_gate:
  assumes "lvl \<in> set LOG_LEVELS"
  shows "lvl \<in> set (this_supportedLogLevels (constructor rt cfg)) \<longleftrightarrow>
         indexOf LOG_LEVELS (nullish (minLogLevel cfg) ''trace'') \<le> indexOf LOG_LEVELS lvl"
proof -
  let ?k = "indexOf LOG_LEVELS (nullish (minLogLevel cfg) ''trace'')"
  have low: "0 \<le> indexOf LOG_LEVELS lvl"
    using indexOf_from_lower [OF assms, of 0] by (simp add: indexOf_def)
  have "lvl \<in> set (drop (nat ?k) LOG_LEVELS) \<longleftrightarrow> int (nat ?k) \<le> indexOf LOG_LEVELS lvl"
    using drop_indexOf_from [OF distinct_LOG_LEVELS assms, of "nat ?k" 0]
    by (simp add: indexOf_def)
  also have "\<dots> \<longleftrightarrow> ?k \<le> indexOf LOG_LEVELS lvl"
    using low by linarith
  finally show ?thesis
    by (simp only: supportedLogLevels)
qed


lemma handleLog_disabled:
  "lvl \<notin> set (this_supportedLogLevels this) \<Longrightarrow>
   handleLog this now lvl ns msg ctx out = Some (out, Returns ())"
  by (simp add: handleLog_def)

lemma handleLog_enabled:
  "lvl \<in> set (this_supportedLogLevels this) \<Longrightarrow>
   handleLog this now lvl ns msg ctx out =
     (case this_formatLog this (logObject_of this now lvl ns msg ctx)
             (this_jsonValueSerializer this) of
        None \<Rightarrow> None
      | Some (Throws e) \<Rightarrow> Some (out, Throws e)
      | Some (Returns text) \<Rightarrow> Some (console_log text out, Returns ()))"
  by (simp add: handleLog_def logObject_of_def Let_def)

lemma log_method_handleLog:
  assumes "lvl \<in> set LOG_LEVELS"
  shows "log_method lvl this now ns msg ctx out =
           handleLog this now lvl ns msg (default_context ctx) out"
proof -
  from assms have "lvl = ''trace'' \<or> lvl = ''debug'' \<or> lvl = ''info'' \<or> lvl = ''warn'' \<or>
      lvl = ''error'' \<or> lvl = ''fatal''"
    by (simp add: LOG_LEVELS_def)
  then show ?thesis
    by (elim disjE)
      (simp_all add: log_method_def trace_def debug_def info_def warn_def error_def fatal_def)
qed



section \<open>Properties of the logging methods\<close>

lemma log_method_disabled:
  assumes "lvl \<in> set LOG_LEVELS"
    and "indexOf LOG_LEVELS lvl < indexOf LOG_LEVELS (nullish (minLogLevel cfg) ''trace'')"
  shows "log_method lvl (constructor rt cfg) now ns msg ctx out = Some (out, Returns ())"
proof -
  from assms have "lvl \<notin> set (this_supportedLogLevels (constructor rt cfg))"
    by (simp add: level_gate)
  then show ?thesis
    by (simp add: log_method_handleLog [OF assms(1)] handleLog_disabled)
qed

lemma log_method_enabled:
  assumes "lvl \<in> set LOG_LEVELS"
    and "indexOf LOG_LEVELS (nullish (minLogLevel cfg) ''trace'') \<le> indexOf LOG_LEVELS lvl"
  shows "log_method lvl (constructor rt cfg) now ns msg ctx out =
     (case this_formatLog (constructor rt cfg)
             (logObject_of (constructor rt cfg) now lvl ns msg (default_context ctx))
             (this_jsonValueSerializer (constructor rt cfg)) of
        None \<Rightarrow> None
      | Some (Throws e) \<Rightarrow> Some (out, Throws e)
      | Some (Returns text) \<Rightarrow>
          Some (out @ [case text of None \<Rightarrow> ''undefined'' | Some s \<Rightarrow> s], Returns ()))"
proof -
  from assms have "lvl \<in> set (this_supportedLogLevels (constructor rt cfg))"
    by (simp add: level_gate)
  then show ?thesis
    by (simp add: log_method_handleLog [OF assms(1)] handleLog_enabled console_log_def
        split: option.splits outcome.splits)
qed

text \<open>
  The default formatter with the default serializer: the properties of the context
  are serialized, and the line is the JSON text of the record around them.
\<close>

lemma defaultFormatLog_default:
  "defaultFormatLog rt l defaultJsonValueSerializer =
     (case serializeJSONProperties defaultJsonValueSerializer (context' l) of
        None \<Rightarrow> None
      | Some (Throws e) \<Rightarrow> Some (Throws e)
      | Some (Returns ps) \<Rightarrow>
          Some (Returns (Some (JSON_stringify rt (LogObject_json rt l (object_of ps)) 0))))"
proof (cases "serializeJSONProperties defaultJsonValueSerializer (context' l)")
  case None
  then show ?thesis
    by (cases "timestamp l")
      (simp_all add: defaultFormatLog_def JSON_stringify_replacer_def LogObject_value_def
        serializeJSONProperties_Cons serializeJSONProperties_Nil)
next
  case (Some r)
  show ?thesis
  proof (cases r)
    case (Throws e)
    with Some show ?thesis
      by (cases "timestamp l")
        (simp_all add: defaultFormatLog_def JSON_stringify_replacer_def LogObject_value_def
          serializeJSONProperties_Cons serializeJSONProperties_Nil)
  next
    case (Returns ps)
    with Some show ?thesis
      by (cases "timestamp l")
        (simp_all add: defaultFormatLog_def JSON_stringify_replacer_def LogObject_value_def
          LogObject_json_def object_of_def
          serializeJSONProperties_Cons serializeJSONProperties_Nil)
  qed
qed

lemma defaultFormatLog_native:
  "context' l = native_context kvs \<Longrightarrow>
   defaultFormatLog rt l defaultJsonValueSerializer =
     Some (Returns (Some (JSON_stringify rt (LogObject_json rt l (JObj kvs)) 0)))"
  using serializeJSONProperties_native_list [of kvs, OF serializeJSONProperties_native]
  by (simp add: defaultFormatLog_default native_context_def object_of_Some)

text \<open>
  The text of the default formatter is written without indentation: it holds no
  newline, whatever the serializer and the context are.
\<close>

lemma defaultFormatLog_no_newline:
  assumes "defaultFormatLog plain_runtime l ser = Some (Returns (Some line))"
  shows "newline \<notin> set line"
proof -
  from assms obtain j where "line = JSON_stringify plain_runtime j 0"
    by (auto simp: defaultFormatLog_def JSON_stringify_replacer_def
        split: option.splits outcome.splits list.splits)
  then show ?thesis
    by (simp add: plain_runtime_def JSON_stringify_text_def serialize_no_newline)
qed

lemma line_count_append:
  "newline \<notin> set line \<Longrightarrow> line_count (out @ [line]) = line_count out + 1"
  by (simp add: line_count_def split_newline_no_newline)

lemma constructor_default_hooks:
  "formatLog cfg = None \<Longrightarrow> this_formatLog (constructor rt cfg) = defaultFormatLog rt"
  "jsonValueSerializer cfg = None \<Longrightarrow>
     this_jsonValueSerializer (constructor rt cfg) = defaultJsonValueSerializer"
  by (simp_all add: constructor_def nullish_def)

section \<open>An unrecognized minimum level\<close>







section \<open>The lines written by a call\<close>

text \<open>
  C6 (as stated, refuted): an enabled call does not always write exactly one line.
  With the formatter \<open>(l) => `${l.level}\n${l.message}`\<close>, the call
  \<open>logger.info("db", "connected")\<close> writes a text of two lines; with the serializer
  \<open>(_k, v) => v\<close>, the call \<open>logger.info("db", "connected", {n: 10n})\<close> writes nothing
  and throws the TypeError of \<open>JSON.stringify\<close>.
\<close>

theorem C6_lines_written_counterexample:
  "info (constructor plain_runtime (empty_configuration\<lparr>formatLog := Some two_line_formatLog\<rparr>))
     ''2024-05-01T10:00:00.000Z'' ''db'' ''connected'' None [] =
     Some ([''info\<newline>connected''], Returns ()) \<and>
   line_count [''info\<newline>connected''] = 2 \<and>
   info (constructor plain_runtime
           (empty_configuration\<lparr>jsonValueSerializer := Some passing_serializer\<rparr>))
     ''2024-05-01T10:00:00.000Z'' ''db'' ''connected'' (Some [(''n'', VBigInt 10)]) [] =
     Some ([], Throws TypeError)"
  by (simp add: info_def handleLog_def constructor_def empty_configuration_def nullish_def
      filter_indexed_def LOG_LEVELS_def indexOf_def default_context_def defaultFormatLog_def
      JSON_stringify_replacer_def LogObject_value_def passing_serializer_def
      two_line_formatLog_def console_log_def line_count_def newline_def
      serializeJSONProperties_Cons serializeJSONProperties_Nil)

text \<open>
  C6 (amended): for every call of one of the six logging methods on a logger, if the
  call's level is below the configured minimum then nothing is written and the call
  returns (no observable effect); otherwise the formatter is called on the record of
  the call, and when it returns a text, that text is written by one call of
  \<open>console.log\<close>; when the formatter throws, the exception is thrown on and nothing
  is written. With the default formatter the text written holds no newline, so that
  exactly one line is written; and with the default formatter and serializer a call
  with a context of JSON values does write its line.
\<close>

theorem C6_lines_written:
  assumes "lvl \<in> set LOG_LEVELS"
  shows "(indexOf LOG_LEVELS lvl < indexOf LOG_LEVELS (nullish (minLogLevel cfg) ''trace'') \<longrightarrow>
            log_method lvl (constructor rt cfg) now ns msg ctx out = Some (out, Returns ())) \<and>
         (indexOf LOG_LEVELS (nullish (minLogLevel cfg) ''trace'') \<le> indexOf LOG_LEVELS lvl \<longrightarrow>
            log_method lvl (constructor rt cfg) now ns msg ctx out =
              (case this_formatLog (constructor rt cfg)
                      (logObject_of (constructor rt cfg) now lvl ns msg (default_context ctx))
                      (this_jsonValueSerializer (constructor rt cfg)) of
                 None \<Rightarrow> None
               | Some (Throws e) \<Rightarrow> Some (out, Throws e)
               | Some (Returns text) \<Rightarrow>
                   Some (out @ [case text of None \<Rightarrow> ''undefined'' | Some s \<Rightarrow> s],
                         Returns ()))) \<and>
         (indexOf LOG_LEVELS (nullish (minLogLevel cfg0) ''trace'') \<le> indexOf LOG_LEVELS lvl \<longrightarrow>
          formatLog cfg0 = None \<longrightarrow>
            (\<forall>out'. log_method lvl (constructor plain_runtime cfg0) now ns msg ctx0 out =
                      Some (out', Returns ()) \<longrightarrow>
                    (\<exists>line. out' = out @ [line] \<and> newline \<notin> set line) \<and>
                    line_count out' = line_count out + 1)) \<and>
         (indexOf LOG_LEVELS (nullish m ''trace'') \<le> indexOf LOG_LEVELS lvl \<longrightarrow>
            (\<exists>line. log_method lvl (constructor rt (configuration_of m ts)) now ns msg
                      (Some (native_context kvs)) out =
                    Some (out @ [line], Returns ())))"
proof -
  have one_line: "\<forall>out'. log_method lvl (constructor plain_runtime cfg0) now ns msg ctx0 out =
                      Some (out', Returns ()) \<longrightarrow>
                    (\<exists>line. out' = out @ [line] \<and> newline \<notin> set line) \<and>
                    line_count out' = line_count out + 1"
    if on: "indexOf LOG_LEVELS (nullish (minLogLevel cfg0) ''trace'') \<le> indexOf LOG_LEVELS lvl"
      and dflt: "formatLog cfg0 = None"
  proof (intro allI impI)
    fix out'
    let ?l = "logObject_of (constructor plain_runtime cfg0) now lvl ns msg (default_context ctx0)"
    let ?ser = "this_jsonValueSerializer (constructor plain_runtime cfg0)"
    assume r: "log_method lvl (constructor plain_runtime cfg0) now ns msg ctx0 out =
                 Some (out', Returns ())"
    from r obtain res where f: "defaultFormatLog plain_runtime ?l ?ser = Some (Returns res)"
      and o: "out' = out @ [case res of None \<Rightarrow> ''undefined'' | Some s \<Rightarrow> s]"
      unfolding log_method_enabled [OF assms on] constructor_default_hooks(1) [OF dflt]
      by (auto split: option.splits outcome.splits)
    have "newline \<notin> set (case res of None \<Rightarrow> ''undefined'' | Some s \<Rightarrow> s)"
    proof (cases res)
      case None
      then show ?thesis by (simp add: newline_def)
    next
      case (Some line)
      with f show ?thesis by (simp add: defaultFormatLog_no_newline)
    qed
    with o show "(\<exists>line. out' = out @ [line] \<and> newline \<notin> set line) \<and>
        line_count out' = line_count out + 1"
      by (simp add: line_count_append)
  qed
  have writes: "\<exists>line. log_method lvl (constructor rt (configuration_of m ts)) now ns msg
                      (Some (native_context kvs)) out =
                    Some (out @ [line], Returns ())"
    if on: "indexOf LOG_LEVELS (nullish m ''trace'') \<le> indexOf LOG_LEVELS lvl"
  proof -
    let ?cfg = "configuration_of m ts :: 'a LoggerConfiguration"
    have on': "indexOf LOG_LEVELS (nullish (minLogLevel ?cfg) ''trace'') \<le> indexOf LOG_LEVELS lvl"
      using on by (simp add: configuration_of_def)
    have hooks: "this_formatLog (constructor rt ?cfg) = defaultFormatLog rt"
      "this_jsonValueSerializer (constructor rt ?cfg) = defaultJsonValueSerializer"
      by (simp_all add: constructor_default_hooks configuration_of_def)
    have c: "context' (logObject_of (constructor rt ?cfg) now lvl ns msg
               (default_context (Some (native_context kvs)))) = native_context kvs"
      by (simp add: logObject_of_def default_context_def)
    show ?thesis
      unfolding log_method_enabled [OF assms on'] hooks defaultFormatLog_native [OF c]
      by simp
  qed
  from log_method_disabled [OF assms, of cfg rt now ns msg ctx out]
    log_method_enabled [OF assms, of cfg rt now ns msg ctx out] one_line writes
  show ?thesis
    by blast
qed

theorem C6_lines_written_witness:
  "error (constructor plain_runtime (empty_configuration\<lparr>minLogLevel := Some ''fatal''\<rparr>))
     ''2024-05-01T10:00:00.000Z'' ''db'' ''lost'' None [''earlier''] =
     Some ([''earlier''], Returns ()) \<and>
   fatal (constructor plain_runtime (empty_configuration\<lparr>minLogLevel := Some ''fatal''\<rparr>))
     ''2024-05-01T10:00:00.000Z'' ''db'' ''lost'' (Some [(''tries'', VNum 3)]) [''earlier''] =
     Some ([''earlier'',
            ''{\"level\":\"fatal\",\"level_n\":5,\"namespace\":\"db\",\"message\":\"lost\",\"context\":{\"tries\":3},\"timestamp\":\"2024-05-01T10:00:00.000Z\"}''],
           Returns ()) \<and>
   line_count [''earlier'',
     ''{\"level\":\"fatal\",\"level_n\":5,\"namespace\":\"db\",\"message\":\"lost\",\"context\":{\"tries\":3},\"timestamp\":\"2024-05-01T10:00:00.000Z\"}''] =
     line_count [''earlier''] + 1"
proof -
  let ?cfg = "empty_configuration\<lparr>minLogLevel := Some ''fatal''\<rparr> :: int LoggerConfiguration"
  let ?now = "''2024-05-01T10:00:00.000Z''"
  let ?line = "''{\"level\":\"fatal\",\"level_n\":5,\"namespace\":\"db\",\"message\":\"lost\",\"context\":{\"tries\":3},\"timestamp\":\"2024-05-01T10:00:00.000Z\"}''"
  have e: "''error'' \<in> set LOG_LEVELS" and f: "''fatal'' \<in> set LOG_LEVELS"
    by (simp_all add: LOG_LEVELS_def)
  have off: "indexOf LOG_LEVELS ''error'' < indexOf LOG_LEVELS (nullish (minLogLevel ?cfg) ''trace'')"
    and on: "indexOf LOG_LEVELS (nullish (minLogLevel ?cfg) ''trace'') \<le> indexOf LOG_LEVELS ''fatal''"
    and dflt: "formatLog ?cfg = None"
    by (simp_all add: LOG_LEVELS_def indexOf_def nullish_def empty_configuration_def)
  have m: "log_method ''error'' = error" "log_method ''fatal'' = fatal"
    by (simp_all add: log_method_def)
  have call: "fatal (constructor plain_runtime ?cfg) ?now ''db'' ''lost'' (Some [(''tries'', VNum 3)])
      [''earlier''] = Some ([''earlier'', ?line], Returns ())"
    by code_simp
  from C6_lines_written [OF e, of ?cfg plain_runtime ?now "''db''" "''lost''" None "[''earlier'']"] off
  have 1: "error (constructor plain_runtime ?cfg) ?now ''db'' ''lost'' None [''earlier''] =
     Some ([''earlier''], Returns ())"
    unfolding m by blast
  from C6_lines_written [OF f, where ?cfg0.0 = ?cfg and now = ?now and ns = "''db''"
      and msg = "''lost''" and ?ctx0.0 = "Some [(''tries'', VNum 3)]" and out = "[''earlier'']"]
    on dflt call
  have 2: "line_count [''earlier'', ?line] = line_count [''earlier''] + 1"
    unfolding m by blast
  from 1 call 2 show ?thesis
    by (intro conjI)
qed

section \<open>Properties of the default value serializer\<close>

lemma defaultJsonValueSerializer_typed_array:
  "defaultJsonValueSerializer k (VTypedArray t elems) =
     Returns (VStr (type_name t @ ''('' @ string_of_nat (length elems) @ '')''))"
  by (cases t) simp_all

lemma split_on_absent: "sep \<notin> set s \<Longrightarrow> split_on sep s = [s]"
  by (induction s) auto

text \<open>
  A named function whose text has no opening parenthesis (an arrow function of one
  parameter written without parentheses, a class) makes \<open>stringifyFunction\<close> throw.
\<close>

lemma stringifyFunction_without_parenthesis:
  "name \<noteq> [] \<Longrightarrow> CHR ''('' \<notin> set fnString \<Longrightarrow>
   stringifyFunction name fnString = Throws TypeError"
  by (simp add: stringifyFunction_def split_on_absent element_def)

text \<open>
  C7: for every typed array of one of the eleven kinds (8, 16, 32 and 64 bit; signed,
  unsigned, clamped and floating), whatever its elements are, the default serializer
  returns the text made of the name of the kind and, in parentheses, the decimal
  numeral of the number of elements; \<open>JSON.stringify\<close> then writes that text as a
  string, so that it is what the logged line holds for the array. Two arrays of one
  kind and one length give the same text. For a kind whose elements have more than
  one byte, the text of a non-empty array is not the text with the byte length.
\<close>

theorem C7_typed_array:
  "defaultJsonValueSerializer k (VTypedArray t elems) =
     Returns (VStr (type_name t @ ''('' @ string_of_nat (length elems) @ '')'')) \<and>
   nat_of_digits (string_of_nat (length elems)) = length elems \<and>
   serializeJSONProperties defaultJsonValueSerializer [(k, VTypedArray t elems)] =
     Some (Returns [(k, Some (JStr (type_name t @ ''('' @ string_of_nat (length elems) @ '')'')))]) \<and>
   (context' l = [(k, VTypedArray t elems)] \<longrightarrow>
      defaultFormatLog rt l defaultJsonValueSerializer =
        Some (Returns (Some (JSON_stringify rt
          (LogObject_json rt l
             (JObj [(k, JStr (type_name t @ ''('' @ string_of_nat (length elems) @ '')''))])) 0)))) \<and>
   (length elems' = length elems \<longrightarrow>
      defaultJsonValueSerializer k' (VTypedArray t elems') =
      defaultJsonValueSerializer k (VTypedArray t elems)) \<and>
   (1 < bytes_per_element t \<and> elems \<noteq> [] \<longrightarrow>
      defaultJsonValueSerializer k (VTypedArray t elems) \<noteq>
      Returns (VStr (type_name t @ ''('' @ string_of_nat (byteLength t elems) @ '')'')))"
proof -
  let ?text = "type_name t @ ''('' @ string_of_nat (length elems) @ '')''"
  have walk: "serializeJSONProperties defaultJsonValueSerializer [(k, VTypedArray t elems)] =
      Some (Returns [(k, Some (JStr ?text))])"
    by (simp add: serializeJSONProperties_Cons serializeJSONProperties_Nil
        defaultJsonValueSerializer_typed_array)
  have line: "context' l = [(k, VTypedArray t elems)] \<longrightarrow>
      defaultFormatLog rt l defaultJsonValueSerializer =
        Some (Returns (Some (JSON_stringify rt (LogObject_json rt l (JObj [(k, JStr ?text)])) 0)))"
    by (simp add: defaultFormatLog_default walk object_of_def)
  have same: "length elems' = length elems \<longrightarrow>
      defaultJsonValueSerializer k' (VTypedArray t elems') =
      defaultJsonValueSerializer k (VTypedArray t elems)"
    by (simp add: defaultJsonValueSerializer_typed_array)
  have bytes: "1 < bytes_per_element t \<and> elems \<noteq> [] \<longrightarrow>
      defaultJsonValueSerializer k (VTypedArray t elems) \<noteq>
      Returns (VStr (type_name t @ ''('' @ string_of_nat (byteLength t elems) @ '')''))"
  proof (intro impI notI, elim conjE)
    assume wide: "1 < bytes_per_element t" and ne: "elems \<noteq> []"
      and "defaultJsonValueSerializer k (VTypedArray t elems) =
        Returns (VStr (type_name t @ ''('' @ string_of_nat (byteLength t elems) @ '')''))"
    then have "string_of_nat (length elems) = string_of_nat (byteLength t elems)"
      by (simp add: defaultJsonValueSerializer_typed_array)
    then have "length elems = bytes_per_element t * length elems"
      unfolding byteLength_def by (rule string_of_nat_inject)
    with wide ne show False by simp
  qed
  from defaultJsonValueSerializer_typed_array [of k t elems] string_of_nat_digits [of "length elems"]
    walk line same bytes
  show ?thesis
    by (simp only: simp_thms)
qed

theorem C7_typed_array_witness:
  "defaultJsonValueSerializer ''arr'' (VTypedArray Int16Array (replicate 10 (VNum (0 :: int)))) =
     Returns (VStr ''Int16Array(10)'') \<and>
   defaultJsonValueSerializer ''arr''
     (VTypedArray Int16Array (map VNum [1, - 2, 3, 4, 5, 6, 7, 8, 9, 32767 :: int])) =
     Returns (VStr ''Int16Array(10)'') \<and>
   byteLength Int16Array (replicate 10 (VNum (0 :: int))) = 20 \<and>
   defaultJsonValueSerializer ''arr'' (VTypedArray Int16Array (replicate 10 (VNum (0 :: int)))) \<noteq>
     Returns (VStr ''Int16Array(20)'')"
proof -
  let ?zeros = "replicate 10 (VNum (0 :: int))"
  let ?other = "map VNum [1, - 2, 3, 4, 5, 6, 7, 8, 9, 32767 :: int]"
  have n: "type_name Int16Array @ ''('' @ string_of_nat (length ?zeros) @ '')'' = ''Int16Array(10)''"
    by code_simp
  have b: "type_name Int16Array @ ''('' @ string_of_nat (byteLength Int16Array ?zeros) @ '')'' =
      ''Int16Array(20)''"
    by code_simp
  have l: "length ?other = length ?zeros"
    by simp
  have w: "1 < bytes_per_element Int16Array \<and> ?zeros \<noteq> []"
    by simp
  have bl: "byteLength Int16Array ?zeros = 20"
    by (simp add: byteLength_def)
  from C7_typed_array [of "''arr''" Int16Array ?zeros _ _ ?other "''arr''"]
  have "defaultJsonValueSerializer ''arr'' (VTypedArray Int16Array ?zeros) =
          Returns (VStr (type_name Int16Array @ ''('' @ string_of_nat (length ?zeros) @ '')''))"
    and "length ?other = length ?zeros \<longrightarrow>
          defaultJsonValueSerializer ''arr'' (VTypedArray Int16Array ?other) =
          defaultJsonValueSerializer ''arr'' (VTypedArray Int16Array ?zeros)"
    and "1 < bytes_per_element Int16Array \<and> ?zeros \<noteq> [] \<longrightarrow>
          defaultJsonValueSerializer ''arr'' (VTypedArray Int16Array ?zeros) \<noteq>
          Returns (VStr (type_name Int16Array @ ''('' @
            string_of_nat (byteLength Int16Array ?zeros) @ '')''))"
    by blast+
  with l w have "defaultJsonValueSerializer ''arr'' (VTypedArray Int16Array ?zeros) =
      Returns (VStr ''Int16Array(10)'')"
    and "defaultJsonValueSerializer ''arr'' (VTypedArray Int16Array ?other) =
      Returns (VStr ''Int16Array(10)'')"
    and "defaultJsonValueSerializer ''arr'' (VTypedArray Int16Array ?zeros) \<noteq>
      Returns (VStr ''Int16Array(20)'')"
    unfolding n b by (blast, metis, blast)
  with bl show ?thesis
    by blast
qed

section \<open>The round trip of a context of JSON values\<close>





end
